theory Spec2Isabelle
  imports
    Complex_Main
    "HOL-Library.Sublist"
    "HOL-Library.Multiset"
    "HOL-Library.Char_ord"
    "HOL-Library.List_Lexorder"
begin

section \<open>ABCD detector: the assessment pipeline of main.py and helpers/generic_helpers.py\<close>

text \<open>
  The theory embeds the pipeline functions of \<^verbatim>\<open>src/main.py\<close> and
  \<^verbatim>\<open>src/helpers/generic_helpers.py\<close>. Python strings are \<open>string\<close>; a Python
  exception is a value of \<open>py_error\<close> on the left of a sum; the object store is an explicit
  value threaded through the functions that read or write it.
\<close>

subsection \<open>Python exceptions\<close>

datatype py_error =
    ValueError          \<comment> \<open>unpacking a sequence of the wrong length\<close>
  | AttributeError      \<comment> \<open>reading \<^verbatim>\<open>.size\<close> of \<^verbatim>\<open>None\<close>\<close>
  | ZeroDivisionError   \<comment> \<open>\<^verbatim>\<open>x / 0\<close>\<close>
  | PreconditionFailed  \<comment> \<open>a conditional upload whose generation precondition fails\<close>
  | SystemExit          \<comment> \<open>raised by \<^verbatim>\<open>exit()\<close>\<close>

subsection \<open>String helpers of Python\<close>

text \<open>
  \<^verbatim>\<open>s.split(sep)\<close> for a one-character separator: the pieces between the occurrences of
  the separator, so a string with \<open>n\<close> separators gives \<open>n + 1\<close> pieces and the empty string
  gives one empty piece.
\<close>

fun split_on :: "char \<Rightarrow> string \<Rightarrow> string list" where
  "split_on c [] = [[]]"
| "split_on c (x # xs) =
     (if x = c then [] # split_on c xs
      else (case split_on c xs of
              [] \<Rightarrow> [[x]]
            | p # ps \<Rightarrow> (x # p) # ps))"

text \<open>\<^verbatim>\<open>needle in haystack\<close> on strings: \<open>needle\<close> occurs as a contiguous piece.\<close>

fun py_in :: "string \<Rightarrow> string \<Rightarrow> bool" where
  "py_in needle [] = (needle = [])"
| "py_in needle (y # ys) = (prefix needle (y # ys) \<or> py_in needle ys)"

subsection \<open>File names from object paths (generic\_helpers.py)\<close>

text \<open>
  \<^verbatim>\<open>get_file_name_from_gcs_url\<close> has two return statements of different shapes:
  the pair \<^verbatim>\<open>file_name, file_name_with_format\<close> and the single string \<^verbatim>\<open>""\<close>.
\<close>

datatype file_name_result =
    Names string string   \<comment> \<open>\<^verbatim>\<open>return file_name, file_name_with_format\<close>\<close>
  | EmptyString           \<comment> \<open>\<^verbatim>\<open>return ""\<close>\<close>

definition get_file_name_from_gcs_url :: "string \<Rightarrow> file_name_result" where
  "get_file_name_from_gcs_url gcs_url =
     (let url_parts = split_on CHR ''/'' gcs_url in
      if length url_parts = 3
      then (let file_name = hd (split_on CHR ''.'' (url_parts ! 2));
                file_name_with_format = url_parts ! 2
            in Names file_name file_name_with_format)
      else EmptyString)"

text \<open>
  The callers write \<^verbatim>\<open>video_name, video_name_with_format = get_file_name_from_gcs_url(...)\<close>.
  Unpacking the 2-tuple binds both names; unpacking the empty string, a sequence of length
  0, raises \<^verbatim>\<open>ValueError\<close>.
\<close>

fun unpack2 :: "file_name_result \<Rightarrow> py_error + string \<times> string" where
  "unpack2 (Names a b) = Inr (a, b)"
| "unpack2 EmptyString = Inl ValueError"

definition get_video_format :: "string \<Rightarrow> string" where
  "get_video_format video_location =
     (let gcs_parts = split_on CHR ''.'' video_location in
      if length gcs_parts = 2 then gcs_parts ! 1 else [])"

subsection \<open>The object store\<close>

text \<open>
  The bucket is the list of its objects in listing order. An object has a name (its path)
  and a size in bytes. \<^verbatim>\<open>bucket.list_blobs(prefix=p)\<close> gives the objects whose
  name starts with \<open>p\<close>; \<^verbatim>\<open>bucket.get_blob(n)\<close> gives the object named \<open>n\<close>, or
  \<^verbatim>\<open>None\<close>.
\<close>

record blob =
  blob_name :: string
  blob_size :: nat

type_synonym bucket = "blob list"

definition list_blobs :: "bucket \<Rightarrow> string \<Rightarrow> blob list" where
  "list_blobs bucket pfx = filter (\<lambda>b. prefix pfx (blob_name b)) bucket"

definition get_blob :: "bucket \<Rightarrow> string \<Rightarrow> blob option" where
  "get_blob bucket n = find (\<lambda>b. blob_name b = n) bucket"

subsection \<open>Feature results and assessments\<close>

text \<open>
  A feature result is the dictionary a detector returns. The pipeline reads three keys of
  it: \<^verbatim>\<open>feature\<close> (the name), \<^verbatim>\<open>feature_detected\<close> (read for its truth value) and
  \<^verbatim>\<open>llm_details\<close>. The CSV writer distinguishes four shapes of \<^verbatim>\<open>llm_details\<close>:
  absent or \<^verbatim>\<open>None\<close>; a list of dictionaries; a dictionary; anything else. Of a
  dictionary only the key \<^verbatim>\<open>llm_explanation\<close> is read, so a dictionary is modelled by
  the value at that key, \<open>None\<close> when the key is missing.
\<close>

datatype llm_details =
    No_details
  | Details_list "string option list"
  | Details_dict "string option"
  | Details_other

record feature_result =
  feature :: string
  feature_detected :: bool
  llm_details :: llm_details

text \<open>
  The score is a Python float. It is modelled by the exact rational it approximates:
  \<^verbatim>\<open>(passed_features_count * 100) / total_features\<close> is the double nearest to that
  quotient.
\<close>

record video_assessment =
  video_name :: string
  video_uri :: string
  features :: "feature_result list"
  passed_features_count :: nat
  score :: rat

text \<open>The dictionary \<^verbatim>\<open>{"brand_name": ..., "video_assessments": [...]}\<close>.\<close>

record brand_assessment =
  assessment_brand_name :: string
  video_assessments :: "video_assessment list"

subsection \<open>Parameters of a run\<close>

text \<open>
  The values imported from \<^verbatim>\<open>input_parameters\<close>, which is not among the sources, are
  parameters of the model.
\<close>

record config =
  BUCKET_NAME :: string
  VIDEO_SIZE_LIMIT_MB :: rat
  STORE_ASSESSMENT_RESULTS_LOCALLY :: bool

text \<open>The arguments of \<^verbatim>\<open>execute_abcd_assessment_for_videos\<close> and \<^verbatim>\<open>execute_abcd_detector\<close>.\<close>

record abcd_args =
  brand_name :: string
  brand_variations :: "string list"
  branded_products :: "string list"
  branded_products_categories :: "string list"
  branded_call_to_actions :: "string list"
  use_annotations :: bool
  use_llms :: bool

text \<open>
  The seven annotation channels of a video. Their content is opaque to the pipeline (type
  \<open>'ann\<close>).
\<close>

record 'ann annotations =
  label_annotation_results :: 'ann
  face_annotation_results :: 'ann
  people_annotation_results :: 'ann
  shot_annotation_results :: 'ann
  text_annotation_results :: 'ann
  logo_annotation_results :: 'ann
  speech_annotation_results :: 'ann

text \<open>
  The detectors of \<^verbatim>\<open>features/*.py\<close>, the annotation helpers and the video library are
  not among the sources. They are parameters, with the arguments and the number of results
  that \<^verbatim>\<open>main.py\<close> gives them and unpacks from them. \<open>empty_annotation\<close> is the empty
  dictionary \<^verbatim>\<open>{}\<close>; \<open>clip_size\<close> is the size of the five-second clip that
  the video library writes from the local file of the given name;
  \<open>generate_video_annotations\<close> is given the bucket and returns it as it leaves it.
\<close>

record 'ann collaborators =
  detect_quick_pacing :: "'ann \<Rightarrow> string \<Rightarrow> feature_result \<times> feature_result"
  detect_dynamic_start :: "'ann \<Rightarrow> string \<Rightarrow> feature_result"
  detect_supers :: "'ann \<Rightarrow> string \<Rightarrow> feature_result"
  detect_supers_with_audio :: "'ann \<Rightarrow> 'ann \<Rightarrow> string \<Rightarrow> feature_result"
  detect_brand_visuals ::
    "'ann \<Rightarrow> 'ann \<Rightarrow> string \<Rightarrow> string \<Rightarrow> string list
      \<Rightarrow> feature_result \<times> feature_result \<times> feature_result"
  detect_brand_mention_speech ::
    "'ann \<Rightarrow> string \<Rightarrow> string \<Rightarrow> string list \<Rightarrow> feature_result \<times> feature_result"
  detect_product_visuals ::
    "'ann \<Rightarrow> string \<Rightarrow> string list \<Rightarrow> string list \<Rightarrow> feature_result \<times> feature_result"
  detect_product_mention_text ::
    "'ann \<Rightarrow> string \<Rightarrow> string list \<Rightarrow> string list \<Rightarrow> feature_result \<times> feature_result"
  detect_product_mention_speech ::
    "'ann \<Rightarrow> string \<Rightarrow> string list \<Rightarrow> string list \<Rightarrow> feature_result \<times> feature_result"
  detect_visible_face :: "'ann \<Rightarrow> string \<Rightarrow> feature_result \<times> feature_result"
  detect_presence_of_people :: "'ann \<Rightarrow> string \<Rightarrow> feature_result \<times> feature_result"
  detect_audio_speech_early :: "'ann \<Rightarrow> string \<Rightarrow> feature_result"
  detect_overall_pacing :: "'ann \<Rightarrow> string \<Rightarrow> feature_result"
  detect_call_to_action_speech :: "'ann \<Rightarrow> string \<Rightarrow> string list \<Rightarrow> feature_result"
  detect_call_to_action_text :: "'ann \<Rightarrow> string \<Rightarrow> string list \<Rightarrow> feature_result"
  download_video_annotations :: "string \<Rightarrow> string \<Rightarrow> 'ann annotations"
  generate_video_annotations :: "string \<Rightarrow> bucket \<Rightarrow> bucket"
  empty_annotation :: 'ann
  clip_size :: "string \<Rightarrow> nat"

text \<open>What a run prints, and the local files it writes, in order.\<close>

datatype event =
    Name_not_resolved string      \<comment> \<open>"Video name not resolved for ... Skipping execution"\<close>
  | Size_exceeded string          \<comment> \<open>"The size of video ... is greater than ... MB. Skipping execution."\<close>
  | Processing string             \<comment> \<open>"Processing ABCD Assessment for video ..."\<close>
  | Stored_locally string string  \<comment> \<open>\<^verbatim>\<open>store_assessment_results_locally\<close>: brand, video uri\<close>
  | Already_trimmed string        \<comment> \<open>"Video ... has already been trimmed. Skipping..."\<close>
  | Downloaded string             \<comment> \<open>\<^verbatim>\<open>download_and_save_video\<close> fetched the object\<close>
  | Trimmed string string         \<comment> \<open>the video library cut the local file into the new file\<close>
  | Uploaded string               \<comment> \<open>the conditional upload created the object\<close>
  | No_videos_to_display          \<comment> \<open>"There are no videos to display."\<close>

subsection \<open>The assessment of one video (main.py, the body of the loop)\<close>

text \<open>
  Lines 148 to 264: the list \<^verbatim>\<open>features\<close> after all its \<^verbatim>\<open>append\<close> calls.
  \<^verbatim>\<open>detect_brand_visuals\<close> is unpacked into three results, of which the first two
  are appended.
\<close>

definition detect_features ::
  "'ann collaborators \<Rightarrow> abcd_args \<Rightarrow> 'ann annotations \<Rightarrow> string \<Rightarrow> feature_result list" where
  "detect_features ext args ann uri =
     (let (quick_pacing, quick_pacing_1st_5_secs) =
            detect_quick_pacing ext (shot_annotation_results ann) uri;
          dynamic_start = detect_dynamic_start ext (shot_annotation_results ann) uri;
          supers = detect_supers ext (text_annotation_results ann) uri;
          supers_with_audio =
            detect_supers_with_audio ext (text_annotation_results ann)
              (speech_annotation_results ann) uri;
          (brand_visuals, brand_visuals_1st_5_secs, brand_visuals_logo_big_1st_5_secs) =
            detect_brand_visuals ext (text_annotation_results ann) (logo_annotation_results ann)
              uri (brand_name args) (brand_variations args);
          (brand_mention_speech, brand_mention_speech_1st_5_secs) =
            detect_brand_mention_speech ext (speech_annotation_results ann) uri
              (brand_name args) (brand_variations args);
          (product_visuals, product_visuals_1st_5_secs) =
            detect_product_visuals ext (label_annotation_results ann) uri
              (branded_products args) (branded_products_categories args);
          (product_mention_text, product_mention_text_1st_5_secs) =
            detect_product_mention_text ext (text_annotation_results ann) uri
              (branded_products args) (branded_products_categories args);
          (product_mention_speech, product_mention_speech_1st_5_secs) =
            detect_product_mention_speech ext (speech_annotation_results ann) uri
              (branded_products args) (branded_products_categories args);
          (visible_face_1st_5_secs, visible_face_close_up) =
            detect_visible_face ext (face_annotation_results ann) uri;
          (presence_of_people, presence_of_people_1st_5_secs) =
            detect_presence_of_people ext (people_annotation_results ann) uri;
          audio_speech_early = detect_audio_speech_early ext (speech_annotation_results ann) uri;
          overall_pacing = detect_overall_pacing ext (shot_annotation_results ann) uri;
          call_to_action_speech =
            detect_call_to_action_speech ext (speech_annotation_results ann) uri
              (branded_call_to_actions args);
          call_to_action_text =
            detect_call_to_action_text ext (text_annotation_results ann) uri
              (branded_call_to_actions args)
      in [quick_pacing, quick_pacing_1st_5_secs, dynamic_start, supers, supers_with_audio,
          brand_visuals, brand_visuals_1st_5_secs,
          brand_mention_speech, brand_mention_speech_1st_5_secs,
          product_visuals, product_visuals_1st_5_secs,
          product_mention_text, product_mention_text_1st_5_secs,
          product_mention_speech, product_mention_speech_1st_5_secs,
          visible_face_1st_5_secs, visible_face_close_up,
          presence_of_people, presence_of_people_1st_5_secs,
          audio_speech_early, overall_pacing, call_to_action_speech, call_to_action_text])"

text \<open>
  Lines 266 to 273. The loop over \<^verbatim>\<open>features\<close> adds one to the counter for each
  result whose \<^verbatim>\<open>feature_detected\<close> is true; the division raises on an empty list.
\<close>

fun count_passed :: "feature_result list \<Rightarrow> nat \<Rightarrow> nat" where
  "count_passed [] n = n"
| "count_passed (f # fs) n = count_passed fs (if feature_detected f then n + 1 else n)"

definition calculate_score :: "feature_result list \<Rightarrow> py_error + nat \<times> rat" where
  "calculate_score fs =
     (let total_features = length fs;
          passed = count_passed fs 0
      in if total_features = 0 then Inl ZeroDivisionError
         else Inr (passed, of_nat (passed * 100) / of_nat total_features))"

text \<open>Lines 125 to 131: every channel starts as the empty dictionary.\<close>

definition empty_annotations_of :: "'ann \<Rightarrow> 'ann annotations" where
  "empty_annotations_of e =
     \<lparr>label_annotation_results = e,
      face_annotation_results = e,
      people_annotation_results = e,
      shot_annotation_results = e,
      text_annotation_results = e,
      logo_annotation_results = e,
      speech_annotation_results = e\<rparr>"

definition empty_annotations :: "'ann collaborators \<Rightarrow> 'ann annotations" where
  "empty_annotations ext = empty_annotations_of (empty_annotation ext)"

text \<open>
  Lines 125 to 143: the channels stay empty unless \<^verbatim>\<open>use_annotations\<close> is set, and
  then they are what \<^verbatim>\<open>download_video_annotations(brand_name, video_name)\<close> returns.
\<close>

definition annotations_for :: "'ann collaborators \<Rightarrow> abcd_args \<Rightarrow> string \<Rightarrow> 'ann annotations" where
  "annotations_for ext args vname =
     (if use_annotations args then download_video_annotations ext (brand_name args) vname
      else empty_annotations ext)"

text \<open>Lines 123 to 280 for a video that passed the checks of lines 107 to 121.\<close>

definition assess_video ::
  "config \<Rightarrow> 'ann collaborators \<Rightarrow> abcd_args \<Rightarrow> blob \<Rightarrow> string \<Rightarrow> string
     \<Rightarrow> py_error + video_assessment" where
  "assess_video cfg ext args video vname vname_with_format =
     (let ann = annotations_for ext args vname;
          uri = ''gs://'' @ BUCKET_NAME cfg @ ''/'' @ blob_name video;
          fs = detect_features ext args ann uri
      in case calculate_score fs of
           Inl e \<Rightarrow> Inl e
         | Inr (passed, sc) \<Rightarrow>
             Inr \<lparr>video_name = vname_with_format, video_uri = uri, features = fs,
                  passed_features_count = passed, score = sc\<rparr>)"

subsection \<open>The loop over the videos of a brand (main.py)\<close>

record run_state =
  assessments :: brand_assessment
  events :: "event list"

definition brand_videos_folder :: "string \<Rightarrow> string" where
  "brand_videos_folder brand = brand @ ''/videos''"

text \<open>
  Lines 107 and 173: the folder marker and the trimmed clips are passed over.
\<close>

definition skipped_name :: "string \<Rightarrow> string \<Rightarrow> bool" where
  "skipped_name brand n \<longleftrightarrow>
     n = brand_videos_folder brand @ ''/'' \<or> py_in ''1st_5_secs'' n"

text \<open>
  Lines 116 and 117: \<^verbatim>\<open>size_mb = video_metadata.size / 1e6\<close> and the test
  \<^verbatim>\<open>use_llms and size_mb > VIDEO_SIZE_LIMIT_MB\<close>, on exact rationals.
\<close>

definition oversize :: "config \<Rightarrow> abcd_args \<Rightarrow> blob \<Rightarrow> bool" where
  "oversize cfg args video_metadata \<longleftrightarrow>
     use_llms args \<and> of_nat (blob_size video_metadata) / 1000000 > VIDEO_SIZE_LIMIT_MB cfg"

text \<open>
  One pass of the body of the loop of \<^verbatim>\<open>execute_abcd_assessment_for_videos\<close>. A
  \<^verbatim>\<open>continue\<close> returns the state it reached; an exception returns \<open>Inl\<close> and ends the
  loop. The size is read from \<^verbatim>\<open>bucket.get_blob(video.name)\<close>.
\<close>

definition assess_one ::
  "config \<Rightarrow> 'ann collaborators \<Rightarrow> abcd_args \<Rightarrow> bucket \<Rightarrow> blob \<Rightarrow> run_state
     \<Rightarrow> py_error + run_state" where
  "assess_one cfg ext args bucket video st =
     (if skipped_name (brand_name args) (blob_name video) then Inr st
      else
        case unpack2 (get_file_name_from_gcs_url (blob_name video)) of
          Inl e \<Rightarrow> Inl e
        | Inr (vname, vname_with_format) \<Rightarrow>
            if vname = [] \<or> vname_with_format = []
            then Inr (st\<lparr>events := events st @ [Name_not_resolved (blob_name video)]\<rparr>)
            else
              case get_blob bucket (blob_name video) of
                None \<Rightarrow> Inl AttributeError
              | Some video_metadata \<Rightarrow>
                  if oversize cfg args video_metadata
                  then Inr (st\<lparr>events := events st @ [Size_exceeded (blob_name video)]\<rparr>)
                  else
                    case assess_video cfg ext args video vname vname_with_format of
                      Inl e \<Rightarrow> Inl e
                    | Inr va \<Rightarrow>
                        Inr \<lparr>assessments =
                               (assessments st)
                                 \<lparr>video_assessments :=
                                    video_assessments (assessments st) @ [va]\<rparr>,
                             events =
                               events st @ [Processing (blob_name video)]
                               @ (if STORE_ASSESSMENT_RESULTS_LOCALLY cfg
                                  then [Stored_locally (brand_name args) (video_uri va)]
                                  else [])\<rparr>)"

fun assess_loop ::
  "config \<Rightarrow> 'ann collaborators \<Rightarrow> abcd_args \<Rightarrow> bucket \<Rightarrow> blob list \<Rightarrow> run_state
     \<Rightarrow> py_error + run_state" where
  "assess_loop cfg ext args bucket [] st = Inr st"
| "assess_loop cfg ext args bucket (video # blobs) st =
     (case assess_one cfg ext args bucket video st of
        Inl e \<Rightarrow> Inl e
      | Inr st' \<Rightarrow> assess_loop cfg ext args bucket blobs st')"

definition execute_abcd_assessment_for_videos ::
  "config \<Rightarrow> 'ann collaborators \<Rightarrow> abcd_args \<Rightarrow> bucket \<Rightarrow> py_error + run_state" where
  "execute_abcd_assessment_for_videos cfg ext args bucket =
     assess_loop cfg ext args bucket
       (list_blobs bucket (brand_videos_folder (brand_name args)))
       \<lparr>assessments = \<lparr>assessment_brand_name = brand_name args, video_assessments = []\<rparr>,
        events = []\<rparr>"

subsection \<open>Trimming (generic\_helpers.py)\<close>

text \<open>
  \<^verbatim>\<open>download_and_save_video\<close> reads the object and writes a local file; the model
  records that it ran.
\<close>

definition download_and_save_video :: "string \<Rightarrow> event list \<Rightarrow> event list" where
  "download_and_save_video uri evs = evs @ [Downloaded uri]"

text \<open>
  \<^verbatim>\<open>trim_and_push_video_to_gcs\<close> in its two parts. First the video library cuts the
  local file and writes the clip (\<^verbatim>\<open>clip.subclip\<close>, \<^verbatim>\<open>clip.write_videofile\<close>).
\<close>

definition write_clip :: "string \<Rightarrow> string \<Rightarrow> event list \<Rightarrow> event list" where
  "write_clip vname_with_format new_video_name evs =
     evs @ [Trimmed vname_with_format new_video_name]"

text \<open>
  Then \<^verbatim>\<open>blob.upload_from_filename(path, if_generation_match=0)\<close>: the store creates the
  object only if no object of that name exists, and the call raises otherwise. A new object
  is listed after the existing ones.
\<close>

definition upload_if_generation_match_0 ::
  "blob \<Rightarrow> bucket \<times> event list \<Rightarrow> py_error + bucket \<times> event list" where
  "upload_if_generation_match_0 b s =
     (case s of (bucket, evs) \<Rightarrow>
        (case get_blob bucket (blob_name b) of
           None \<Rightarrow> Inr (bucket @ [b], evs @ [Uploaded (blob_name b)])
         | Some _ \<Rightarrow> Inl PreconditionFailed))"

definition trim_and_push_video_to_gcs ::
  "'ann collaborators \<Rightarrow> string \<Rightarrow> string \<Rightarrow> string \<Rightarrow> bucket \<times> event list
     \<Rightarrow> py_error + bucket \<times> event list" where
  "trim_and_push_video_to_gcs ext gcs_output_path vname_with_format new_video_name s =
     (case s of (bucket, evs) \<Rightarrow>
        upload_if_generation_match_0
          \<lparr>blob_name = gcs_output_path @ ''/'' @ new_video_name,
           blob_size = clip_size ext vname_with_format\<rparr>
          (bucket, write_clip vname_with_format new_video_name evs))"

text \<open>Lines 177 to 182: the name of the clip and its path in the store.\<close>

definition video_name_1st_5_secs :: "string \<Rightarrow> string \<Rightarrow> string" where
  "video_name_1st_5_secs vname vname_with_format =
     vname @ ''_1st_5_secs.'' @ get_video_format vname_with_format"

text \<open>
  One pass of the body of the loop of \<^verbatim>\<open>trim_videos\<close>. There is no test of the names
  here: the unpacking of line 176 is followed at once by their use.
\<close>

definition trim_one ::
  "'ann collaborators \<Rightarrow> string \<Rightarrow> blob \<Rightarrow> bucket \<times> event list
     \<Rightarrow> py_error + bucket \<times> event list" where
  "trim_one ext brand video s =
     (case s of (bucket, evs) \<Rightarrow>
        if skipped_name brand (blob_name video) then Inr (bucket, evs)
        else
          case unpack2 (get_file_name_from_gcs_url (blob_name video)) of
            Inl e \<Rightarrow> Inl e
          | Inr (vname, vname_with_format) \<Rightarrow>
              (let new_name = video_name_1st_5_secs vname vname_with_format;
                   parent_folder = brand_videos_folder brand @ ''/'' @ new_name
               in case get_blob bucket parent_folder of
                    None \<Rightarrow>
                      trim_and_push_video_to_gcs ext (brand_videos_folder brand)
                        vname_with_format new_name
                        (bucket, download_and_save_video (blob_name video) evs)
                  | Some _ \<Rightarrow> Inr (bucket, evs @ [Already_trimmed (blob_name video)])))"

fun trim_loop ::
  "'ann collaborators \<Rightarrow> string \<Rightarrow> blob list \<Rightarrow> bucket \<times> event list
     \<Rightarrow> py_error + bucket \<times> event list" where
  "trim_loop ext brand [] s = Inr s"
| "trim_loop ext brand (video # blobs) s =
     (case trim_one ext brand video s of
        Inl e \<Rightarrow> Inl e
      | Inr s' \<Rightarrow> trim_loop ext brand blobs s')"

definition trim_videos ::
  "'ann collaborators \<Rightarrow> string \<Rightarrow> bucket \<Rightarrow> py_error + bucket \<times> event list" where
  "trim_videos ext brand bucket =
     trim_loop ext brand (list_blobs bucket (brand_videos_folder brand)) (bucket, [])"

subsection \<open>Rendering (generic\_helpers.py)\<close>

text \<open>
  \<^verbatim>\<open>round(x, 2)\<close> on the exact rational: the nearest multiple of 1/100, a tie going
  to the even one. (On a double, Python rounds the exact binary value, which differs from
  this only where the decimal written in the source is a tie and its double is not.)
\<close>

definition round_half_even :: "rat \<Rightarrow> int" where
  "round_half_even x =
     (let f = \<lfloor>x\<rfloor>; d = x - of_int f
      in if d < 1 / 2 then f
         else if 1 / 2 < d then f + 1
         else if even f then f else f + 1)"

definition py_round2 :: "rat \<Rightarrow> rat" where
  "py_round2 x = of_int (round_half_even (x * 100)) / 100"

datatype band = Excellent | Might_Improve | Needs_Review

text \<open>
  The text of a report, one value for each piece that the renderers write. The formatting
  of the numbers into characters is left to Python.
\<close>

datatype line =
    Title string             \<comment> \<open>the heading with the brand name\<close>
  | Player_url string        \<comment> \<open>\<^verbatim>\<open>player(video_url)\<close> prints the url\<close>
  | Asset_name string
  | Video_score rat nat nat  \<comment> \<open>the rounded score, the passed count, the number of features\<close>
  | Asset_result band
  | Features_heading
  | Feature_line bool string \<comment> \<open>the tick or the cross, and the feature name\<close>

text \<open>
  \<^verbatim>\<open>format_assessment_results\<close>, lines 306 to 328. The local variable
  \<^verbatim>\<open>score\<close> is the rounded score, and the band is chosen by comparing that variable.
\<close>

definition format_video_assessment :: "video_assessment \<Rightarrow> line list" where
  "format_video_assessment va =
     (let rounded = py_round2 (score va);
          passed_features = passed_features_count va;
          total_features = length (features va);
          result = (if rounded \<ge> 80 then Excellent
                    else if 65 \<le> rounded \<and> rounded < 80 then Might_Improve
                    else Needs_Review)
      in [Asset_name (video_name va), Video_score rounded passed_features total_features,
          Asset_result result, Features_heading]
         @ map (\<lambda>f. Feature_line (feature_detected f) (feature f)) (features va))"

definition format_assessment_results :: "brand_assessment \<Rightarrow> line list" where
  "format_assessment_results abcd_assessment =
     Title (assessment_brand_name abcd_assessment)
     # concat (map format_video_assessment (video_assessments abcd_assessment))"

text \<open>
  \<^verbatim>\<open>print_abcd_assetssments\<close>, lines 339 to 361. The band is chosen by comparing
  \<^verbatim>\<open>video_assessment.get("score")\<close>, the stored score.
\<close>

definition print_video_assessment :: "config \<Rightarrow> string \<Rightarrow> video_assessment \<Rightarrow> line list" where
  "print_video_assessment cfg brand va =
     (let video_url = ''/content/'' @ BUCKET_NAME cfg @ ''/'' @ brand @ ''/videos/'' @ video_name va;
          passed = passed_features_count va;
          total_features = length (features va);
          result = (if score va \<ge> 80 then Excellent
                    else if score va \<ge> 65 \<and> score va < 80 then Might_Improve
                    else Needs_Review)
      in [Player_url video_url, Asset_name (video_name va),
          Video_score (py_round2 (score va)) passed total_features,
          Asset_result result, Features_heading]
         @ map (\<lambda>f. Feature_line (feature_detected f) (feature f)) (features va))"

definition print_abcd_assetssments :: "config \<Rightarrow> brand_assessment \<Rightarrow> string \<Rightarrow> line list" where
  "print_abcd_assetssments cfg abcd_assessment brand =
     Title (assessment_brand_name abcd_assessment)
     # concat (map (print_video_assessment cfg brand) (video_assessments abcd_assessment))"

text \<open>The band a renderer shows for a video: the \<open>Asset_result\<close> pieces of its output.\<close>

fun bands :: "line list \<Rightarrow> band list" where
  "bands [] = []"
| "bands (Asset_result b # ls) = b # bands ls"
| "bands (l # ls) = bands ls"

subsection \<open>The CSV matrix (generic\_helpers.py)\<close>

text \<open>
  Lines 371 to 378: the set of the feature names of all videos, then \<^verbatim>\<open>sorted\<close>.
  Python orders strings by code point, character by character.
\<close>

definition features_set :: "brand_assessment \<Rightarrow> string set" where
  "features_set abcd_assessment =
     fold (\<lambda>va S. fold (\<lambda>f S'. insert (feature f) S') (features va) S)
       (video_assessments abcd_assessment) {}"

definition features_list :: "brand_assessment \<Rightarrow> string list" where
  "features_list abcd_assessment = sorted_list_of_set (features_set abcd_assessment)"


text \<open>Lines 404 to 416: the explanation read from \<^verbatim>\<open>llm_details\<close>.\<close>

fun llm_explanation :: "llm_details \<Rightarrow> string" where
  "llm_explanation No_details = []"
| "llm_explanation (Details_list []) = []"
| "llm_explanation (Details_list (d # ds)) = (case d of None \<Rightarrow> [] | Some e \<Rightarrow> e)"
| "llm_explanation (Details_dict d) = (case d of None \<Rightarrow> [] | Some e \<Rightarrow> e)"
| "llm_explanation Details_other = []"

text \<open>The two dictionaries of a video, filled in the order of its features.\<close>

definition feature_detection :: "video_assessment \<Rightarrow> string \<rightharpoonup> bool" where
  "feature_detection va =
     fold (\<lambda>f m. m(feature f \<mapsto> feature_detected f)) (features va) Map.empty"

definition feature_explanation :: "video_assessment \<Rightarrow> string \<rightharpoonup> string" where
  "feature_explanation va =
     fold (\<lambda>f m. m(feature f \<mapsto> llm_explanation (llm_details f))) (features va) Map.empty"

text \<open>
  Line 431: \<^verbatim>\<open>explanation.replace('\n', ' ').replace('"', '""')\<close>.
\<close>

definition clean_explanation :: "string \<Rightarrow> string" where
  "clean_explanation e =
     concat (map (\<lambda>c. if c = CHR 0x22 then [CHR 0x22, CHR 0x22] else [c])
               (map (\<lambda>c. if c = CHR 0x0A then CHR '' '' else c) e))"

text \<open>The values handed to the CSV writer.\<close>

datatype cell = Text string | Number rat | Count nat

definition detected_in :: "video_assessment \<Rightarrow> string \<Rightarrow> bool" where
  "detected_in va feature_name =
     (case feature_detection va feature_name of None \<Rightarrow> False | Some d \<Rightarrow> d)"

definition explanation_in :: "video_assessment \<Rightarrow> string \<Rightarrow> string" where
  "explanation_in va feature_name =
     clean_explanation
       (case feature_explanation va feature_name of None \<Rightarrow> [] | Some e \<Rightarrow> e)"




subsection \<open>The whole run (main.py)\<close>

text \<open>
  \<^verbatim>\<open>execute_abcd_detector\<close>. The caller receives either the assessments or the
  exception; \<^verbatim>\<open>exit()\<close> raises \<^verbatim>\<open>SystemExit\<close>. With the assessments the model
  returns the bucket as the run left it, and what the run has printed.
\<close>

definition execute_abcd_detector ::
  "config \<Rightarrow> 'ann collaborators \<Rightarrow> abcd_args \<Rightarrow> bucket
     \<Rightarrow> py_error + brand_assessment \<times> bucket \<times> event list \<times> line list" where
  "execute_abcd_detector cfg ext args bucket =
     (let annotated = (if use_annotations args
                       then generate_video_annotations ext (brand_name args) bucket
                       else bucket)
      in case trim_videos ext (brand_name args) annotated of
           Inl e \<Rightarrow> Inl e
         | Inr (trimmed, trim_events) \<Rightarrow>
             (case execute_abcd_assessment_for_videos cfg ext args trimmed of
                Inl e \<Rightarrow> Inl e
              | Inr st \<Rightarrow>
                  if length (video_assessments (assessments st)) = 0
                  then Inl SystemExit
                  else Inr (assessments st, trimmed, trim_events @ events st,
                            print_abcd_assetssments cfg (assessments st) (brand_name args))))"

subsection \<open>A small brand, for evaluating the definitions\<close>

definition example_feature :: "string \<Rightarrow> bool \<Rightarrow> feature_result" where
  "example_feature n d = \<lparr>feature = n, feature_detected = d, llm_details = No_details\<rparr>"

definition example_ext :: "unit collaborators" where
  "example_ext =
     \<lparr>detect_quick_pacing = (\<lambda>_ _.
        (example_feature ''Quick Pacing'' True,
         example_feature ''Quick Pacing (First 5 seconds)'' False)),
      detect_dynamic_start = (\<lambda>_ _. example_feature ''Dynamic Start'' True),
      detect_supers = (\<lambda>_ _. example_feature ''Supers'' True),
      detect_supers_with_audio = (\<lambda>_ _ _. example_feature ''Supers with Audio'' False),
      detect_brand_visuals = (\<lambda>_ _ _ _ _.
        (example_feature ''Brand Visuals'' True,
         example_feature ''Brand Visuals (First 5 seconds)'' True,
         example_feature ''Brand Visuals Logo Big (First 5 seconds)'' True)),
      detect_brand_mention_speech = (\<lambda>_ _ _ _.
        (example_feature ''Brand Mention (Speech)'' True,
         example_feature ''Brand Mention (Speech) (First 5 seconds)'' False)),
      detect_product_visuals = (\<lambda>_ _ _ _.
        (example_feature ''Product Visuals'' True,
         example_feature ''Product Visuals (First 5 seconds)'' False)),
      detect_product_mention_text = (\<lambda>_ _ _ _.
        (example_feature ''Product Mention (Text)'' False,
         example_feature ''Product Mention (Text) (First 5 seconds)'' False)),
      detect_product_mention_speech = (\<lambda>_ _ _ _.
        (example_feature ''Product Mention (Speech)'' False,
         example_feature ''Product Mention (Speech) (First 5 seconds)'' False)),
      detect_visible_face = (\<lambda>_ _.
        (example_feature ''Visible Face (First 5 seconds)'' True,
         example_feature ''Visible Face (Close Up)'' True)),
      detect_presence_of_people = (\<lambda>_ _.
        (example_feature ''Presence of People'' True,
         example_feature ''Presence of People (First 5 seconds)'' False)),
      detect_audio_speech_early = (\<lambda>_ _. example_feature ''Audio Early (First 5 seconds)'' True),
      detect_overall_pacing = (\<lambda>_ _. example_feature ''Overall Pacing'' True),
      detect_call_to_action_speech = (\<lambda>_ _ _. example_feature ''Call To Action (Speech)'' False),
      detect_call_to_action_text = (\<lambda>_ _ _. example_feature ''Call To Action (Text)'' True),
      download_video_annotations = (\<lambda>_ _. empty_annotations_of ()),
      generate_video_annotations = (\<lambda>_ bucket. bucket),
      empty_annotation = (),
      clip_size = (\<lambda>_. 500000)\<rparr>"

definition example_cfg :: config where
  "example_cfg =
     \<lparr>BUCKET_NAME = ''abcd'', VIDEO_SIZE_LIMIT_MB = 7, STORE_ASSESSMENT_RESULTS_LOCALLY = False\<rparr>"

definition example_args :: abcd_args where
  "example_args =
     \<lparr>brand_name = ''Acme'', brand_variations = [''acme''], branded_products = [''Anvil''],
      branded_products_categories = [''tools''], branded_call_to_actions = [''buy now''],
      use_annotations = False, use_llms = True\<rparr>"

definition example_bucket :: bucket where
  "example_bucket =
     [\<lparr>blob_name = ''Acme/videos/'', blob_size = 0\<rparr>,
      \<lparr>blob_name = ''Acme/videos/big.mp4'', blob_size = 9000000\<rparr>,
      \<lparr>blob_name = ''Acme/videos/small.mp4'', blob_size = 4000000\<rparr>,
      \<lparr>blob_name = ''Acme/videos/small_1st_5_secs.mp4'', blob_size = 500000\<rparr>]"

text \<open>The assessment of \<^verbatim>\<open>small.mp4\<close> and the state the loop ends in.\<close>

definition example_assessment :: video_assessment where
  "example_assessment =
     \<lparr>video_name = ''small.mp4'', video_uri = ''gs://abcd/Acme/videos/small.mp4'',
      features = detect_features example_ext example_args (empty_annotations example_ext)
                   ''gs://abcd/Acme/videos/small.mp4'',
      passed_features_count = 13, score = 1300 / 23\<rparr>"

definition example_state :: run_state where
  "example_state =
     \<lparr>assessments =
        \<lparr>assessment_brand_name = ''Acme'', video_assessments = [example_assessment]\<rparr>,
      events = [Size_exceeded ''Acme/videos/big.mp4'', Processing ''Acme/videos/small.mp4'']\<rparr>"

text \<open>
  The band of a score as the specification states it: 80 and above, from 65 up to 80, and
  below 65.
\<close>

definition band_of :: "rat \<Rightarrow> band" where
  "band_of s =
     (if s \<ge> 80 then Excellent
      else if 65 \<le> s \<and> s < 80 then Might_Improve
      else Needs_Review)"

text \<open>
  An assessment whose score lies just below 80: 3203 of 4004 features detected, a score of
  79.99500...
\<close>

definition near_80_assessment :: video_assessment where
  "near_80_assessment =
     \<lparr>video_name = ''long.mp4'', video_uri = ''gs://abcd/Acme/videos/long.mp4'',
      features = replicate 3203 (example_feature ''Supers'' True)
                 @ replicate 801 (example_feature ''Supers'' False),
      passed_features_count = 3203, score = 320300 / 4004\<rparr>"

definition near_80_report :: brand_assessment where
  "near_80_report =
     \<lparr>assessment_brand_name = ''Acme'', video_assessments = [near_80_assessment]\<rparr>"

subsection \<open>Names used in the statements\<close>

text \<open>
  The two names that the callers bind for a video whose path has three parts, and the path
  at which \<^verbatim>\<open>trim_videos\<close> looks for its clip (lines 177 to 183).
\<close>

definition video_names :: "blob \<Rightarrow> string \<times> string" where
  "video_names video =
     (case get_file_name_from_gcs_url (blob_name video) of
        Names file_name file_name_with_format \<Rightarrow> (file_name, file_name_with_format)
      | EmptyString \<Rightarrow> ([], []))"

definition preview_path :: "string \<Rightarrow> blob \<Rightarrow> string" where
  "preview_path brand video =
     brand_videos_folder brand @ ''/''
     @ video_name_1st_5_secs (fst (video_names video)) (snd (video_names video))"

text \<open>
  A listed object is a candidate when it is neither the folder marker nor a clip; a
  candidate's name is well formed when it has exactly two \<open>/\<close> characters.
\<close>

definition well_named :: "string \<Rightarrow> blob \<Rightarrow> bool" where
  "well_named brand video \<longleftrightarrow>
     skipped_name brand (blob_name video) \<or> count_list (blob_name video) CHR ''/'' = 2"

text \<open>
  The videos that reach the detectors: candidates with both names resolved and, when
  \<^verbatim>\<open>use_llms\<close> is set, a size within the limit.
\<close>

definition assessable :: "config \<Rightarrow> abcd_args \<Rightarrow> blob \<Rightarrow> bool" where
  "assessable cfg args video \<longleftrightarrow>
     \<not> skipped_name (brand_name args) (blob_name video)
     \<and> fst (video_names video) \<noteq> [] \<and> snd (video_names video) \<noteq> []
     \<and> \<not> oversize cfg args video"

subsection \<open>Further stores of the small brand\<close>

text \<open>A store with a video one folder deeper, listed before a video at the usual depth.\<close>

definition nested_bucket :: bucket where
  "nested_bucket =
     [\<lparr>blob_name = ''Acme/videos/'', blob_size = 0\<rparr>,
      \<lparr>blob_name = ''Acme/videos/2024/clip.mp4'', blob_size = 3000000\<rparr>,
      \<lparr>blob_name = ''Acme/videos/small.mp4'', blob_size = 4000000\<rparr>]"

text \<open>A store with no video of the brand, and a store whose only video is over the limit.\<close>

definition no_videos_bucket :: bucket where
  "no_videos_bucket = [\<lparr>blob_name = ''Acme/videos/'', blob_size = 0\<rparr>]"

definition oversize_only_bucket :: bucket where
  "oversize_only_bucket =
     [\<lparr>blob_name = ''Acme/videos/'', blob_size = 0\<rparr>,
      \<lparr>blob_name = ''Acme/videos/big.mp4'', blob_size = 9000000\<rparr>]"

subsection \<open>A report of two videos, in both orders\<close>

definition video_one :: video_assessment where
  "video_one =
     \<lparr>video_name = ''one.mp4'', video_uri = ''gs://abcd/Acme/videos/one.mp4'',
      features =
        [\<lparr>feature = ''Supers'', feature_detected = True,
          llm_details = Details_list [Some ''text on screen'']\<rparr>,
         \<lparr>feature = ''Dynamic Start'', feature_detected = False, llm_details = No_details\<rparr>],
      passed_features_count = 1, score = 50\<rparr>"

definition video_two :: video_assessment where
  "video_two =
     \<lparr>video_name = ''two.mp4'', video_uri = ''gs://abcd/Acme/videos/two.mp4'',
      features =
        [\<lparr>feature = ''Quick Pacing'', feature_detected = True,
          llm_details = Details_dict (Some ''many cuts'')\<rparr>],
      passed_features_count = 1, score = 100\<rparr>"

definition report_one_two :: brand_assessment where
  "report_one_two = \<lparr>assessment_brand_name = ''Acme'', video_assessments = [video_one, video_two]\<rparr>"

definition report_two_one :: brand_assessment where
  "report_two_one = \<lparr>assessment_brand_name = ''Acme'', video_assessments = [video_two, video_one]\<rparr>"

subsection \<open>Two runs of the trimming pass at once\<close>

text \<open>
  The body of the loop of \<^verbatim>\<open>trim_videos\<close> for one candidate whose names are resolved,
  cut at its calls to the store and to the video library: \<^verbatim>\<open>bucket.get_blob\<close> (line
  183), \<^verbatim>\<open>download_and_save_video\<close> (line 187), \<^verbatim>\<open>clip.write_videofile\<close> (line
  249) and \<^verbatim>\<open>blob.upload_from_filename\<close> (line 255). A worker is at one of these calls,
  or has finished the candidate, or has raised.
\<close>

datatype worker = At_check | At_download | At_trim | At_upload | Finished | Raised py_error

fun worker_step ::
  "'ann collaborators \<Rightarrow> string \<Rightarrow> blob \<Rightarrow> worker \<Rightarrow> bucket \<times> event list
     \<Rightarrow> worker \<times> bucket \<times> event list" where
  "worker_step ext brand video At_check (bucket, evs) =
     (case get_blob bucket (preview_path brand video) of
        None \<Rightarrow> (At_download, bucket, evs)
      | Some _ \<Rightarrow> (Finished, bucket, evs @ [Already_trimmed (blob_name video)]))"
| "worker_step ext brand video At_download (bucket, evs) =
     (At_trim, bucket, download_and_save_video (blob_name video) evs)"
| "worker_step ext brand video At_trim (bucket, evs) =
     (At_upload, bucket,
      write_clip (snd (video_names video))
        (video_name_1st_5_secs (fst (video_names video)) (snd (video_names video))) evs)"
| "worker_step ext brand video At_upload (bucket, evs) =
     (case upload_if_generation_match_0
             \<lparr>blob_name = preview_path brand video,
              blob_size = clip_size ext (snd (video_names video))\<rparr> (bucket, evs) of
        Inl e \<Rightarrow> (Raised e, bucket, evs)
      | Inr s \<Rightarrow> (Finished, s))"
| "worker_step ext brand video Finished s = (Finished, s)"
| "worker_step ext brand video (Raised e) s = (Raised e, s)"

text \<open>
  Two workers on the same candidate share the store (and, for the record, the list of
  events). A schedule says which worker takes each step: \<open>True\<close> the first, \<open>False\<close> the
  second.
\<close>

fun race ::
  "'ann collaborators \<Rightarrow> string \<Rightarrow> blob \<Rightarrow> bool list
     \<Rightarrow> worker \<times> worker \<times> bucket \<times> event list \<Rightarrow> worker \<times> worker \<times> bucket \<times> event list" where
  "race ext brand video [] c = c"
| "race ext brand video (first # schedule) (w1, w2, s) =
     (if first
      then (case worker_step ext brand video w1 s of
              (w1', s') \<Rightarrow> race ext brand video schedule (w1', w2, s'))
      else (case worker_step ext brand video w2 s of
              (w2', s') \<Rightarrow> race ext brand video schedule (w1, w2', s')))"

definition small_video :: blob where
  "small_video = \<lparr>blob_name = ''Acme/videos/small.mp4'', blob_size = 4000000\<rparr>"

definition big_video :: blob where
  "big_video = \<lparr>blob_name = ''Acme/videos/big.mp4'', blob_size = 9000000\<rparr>"

definition big_clip :: blob where
  "big_clip = \<lparr>blob_name = ''Acme/videos/big_1st_5_secs.mp4'', blob_size = 500000\<rparr>"

text \<open>
  The invariant of the shared store under any interleaving: the upload of the clip at path
  \<open>p\<close> is recorded at most once, and once it is recorded the store holds the clip.
\<close>

definition upload_once :: "string \<Rightarrow> bucket \<times> event list \<Rightarrow> bool" where
  "upload_once p s \<longleftrightarrow>
     count_list (snd s) (Uploaded p) \<le> 1
     \<and> (Uploaded p \<in> set (snd s) \<longrightarrow> p \<in> blob_name ` set (fst s))"

section \<open>Properties\<close>

subsection \<open>Splitting\<close>

lemma split_on_not_Nil: "split_on c s \<noteq> []"
  by (induction s) (auto split: list.splits)

lemma length_split_on: "length (split_on c s) = Suc (count_list s c)"
proof (induction s)
  case Nil
  show ?case by simp
next
  case (Cons x xs)
  then show ?case
    using split_on_not_Nil [of c xs] by (cases "split_on c xs") auto
qed

subsection \<open>Scoring\<close>

lemma count_passed_eq: "count_passed fs n = n + length (filter feature_detected fs)"
  by (induction fs arbitrary: n) auto

lemma calculate_score_Inr:
  assumes "calculate_score fs = Inr (p, s)"
  shows "p = length (filter feature_detected fs) \<and> 0 < length fs
         \<and> s = of_nat (100 * p) / of_nat (length fs)"
  using assms
  by (auto simp: calculate_score_def Let_def count_passed_eq mult.commute split: if_splits)

lemma length_detect_features: "length (detect_features ext args ann uri) = 23"
  by (simp add: detect_features_def Let_def split_beta)

lemma detect_features_not_Nil: "detect_features ext args ann uri \<noteq> []"
  using length_detect_features [of ext args ann uri] by auto

lemma assess_video_Inr:
  assumes "assess_video cfg ext args video vn vnf = Inr va"
  shows "passed_features_count va = length (filter feature_detected (features va))
         \<and> length (features va) = 23
         \<and> score va = of_nat (100 * passed_features_count va) / of_nat (length (features va))"
  using assms
  by (auto simp: assess_video_def Let_def length_detect_features
           dest!: calculate_score_Inr split: sum.splits prod.splits)

lemma assess_video_total: "\<exists>va. assess_video cfg ext args video vn vnf = Inr va"
  by (simp add: assess_video_def Let_def calculate_score_def detect_features_not_Nil)

lemma assess_video_eq:
  "assess_video cfg ext args video vn vnf =
     Inr \<lparr>video_name = vnf,
          video_uri = ''gs://'' @ BUCKET_NAME cfg @ ''/'' @ blob_name video,
          features = detect_features ext args (annotations_for ext args vn)
                       (''gs://'' @ BUCKET_NAME cfg @ ''/'' @ blob_name video),
          passed_features_count =
            count_passed (detect_features ext args (annotations_for ext args vn)
                            (''gs://'' @ BUCKET_NAME cfg @ ''/'' @ blob_name video)) 0,
          score =
            of_nat (count_passed (detect_features ext args (annotations_for ext args vn)
                            (''gs://'' @ BUCKET_NAME cfg @ ''/'' @ blob_name video)) 0 * 100) / 23\<rparr>"
  using length_detect_features [of ext args "annotations_for ext args vn"
      "''gs://'' @ BUCKET_NAME cfg @ ''/'' @ blob_name video"]
  by (simp add: assess_video_def calculate_score_def Let_def detect_features_not_Nil del: append.simps)

lemma detect_features_brand_visuals:
  "detect_features ext args ann uri ! 5 =
     fst (detect_brand_visuals ext (text_annotation_results ann) (logo_annotation_results ann)
            uri (brand_name args) (brand_variations args))"
  "detect_features ext args ann uri ! 6 =
     fst (snd (detect_brand_visuals ext (text_annotation_results ann) (logo_annotation_results ann)
            uri (brand_name args) (brand_variations args)))"
  by (simp_all add: detect_features_def Let_def split_beta)

lemma detect_features_third_unused:
  "detect_features
     (ext\<lparr>detect_brand_visuals := \<lambda>t l u b vs.
             (case detect_brand_visuals ext t l u b vs of
                (first, second, third) \<Rightarrow> (first, second, other))\<rparr>)
     args ann uri
   = detect_features ext args ann uri"
  by (simp add: detect_features_def Let_def split_beta)


text \<open>Every assessment in the state after one pass was there before or is the new one.\<close>

lemma assess_one_new:
  assumes "assess_one cfg ext args bucket v st = Inr st'"
      and "va \<in> set (video_assessments (assessments st'))"
  shows "va \<in> set (video_assessments (assessments st))
         \<or> (\<exists>vn vnf. assess_video cfg ext args v vn vnf = Inr va)"
  using assms
  by (auto simp: assess_one_def split: if_splits sum.splits prod.splits option.splits)

lemma assess_loop_new:
  assumes "assess_loop cfg ext args bucket vs st = Inr st'"
      and "va \<in> set (video_assessments (assessments st'))"
  shows "va \<in> set (video_assessments (assessments st))
         \<or> (\<exists>v vn vnf. assess_video cfg ext args v vn vnf = Inr va)"
  using assms
proof (induction vs arbitrary: st)
  case Nil
  then show ?case by simp
next
  case (Cons v vs)
  from Cons.prems(1) obtain st1 where
    one: "assess_one cfg ext args bucket v st = Inr st1"
    and rest: "assess_loop cfg ext args bucket vs st1 = Inr st'"
    by (auto split: sum.splits)
  from Cons.IH [OF rest Cons.prems(2)] assess_one_new [OF one] show ?case
    by blast
qed

subsection \<open>The small brand, evaluated\<close>

lemmas example_defs =
  example_cfg_def example_args_def example_bucket_def example_ext_def example_feature_def

lemmas run_defs =
  execute_abcd_assessment_for_videos_def list_blobs_def brand_videos_folder_def assess_one_def
  skipped_name_def get_file_name_from_gcs_url_def get_blob_def oversize_def assess_video_def
  annotations_for_def calculate_score_def detect_features_def empty_annotations_def
  empty_annotations_of_def Let_def

lemma example_run:
  "execute_abcd_assessment_for_videos example_cfg example_ext example_args example_bucket =
     Inr example_state"
  by (simp add: run_defs example_defs example_state_def example_assessment_def)

text \<open>
  C1. Every video assessment that \<^verbatim>\<open>execute_abcd_assessment_for_videos\<close> returns has
  \<^verbatim>\<open>passed_features_count\<close> equal to the number of its feature results whose
  \<^verbatim>\<open>feature_detected\<close> is true, at most the number of its features, which is positive,
  and its score is \<open>100 * passed / total\<close>, not rounded.
\<close>

theorem assessment_score:
  assumes "execute_abcd_assessment_for_videos cfg ext args bucket = Inr st"
      and "va \<in> set (video_assessments (assessments st))"
  shows "passed_features_count va = length (filter feature_detected (features va))
         \<and> passed_features_count va \<le> length (features va)
         \<and> 0 < length (features va)
         \<and> score va = of_nat (100 * passed_features_count va) / of_nat (length (features va))"
proof -
  from assms obtain v vn vnf where "assess_video cfg ext args v vn vnf = Inr va"
    unfolding execute_abcd_assessment_for_videos_def
    by (auto dest: assess_loop_new)
  from assess_video_Inr [OF this] length_filter_le [of feature_detected "features va"]
  show ?thesis
    by simp
qed

theorem assessment_score_witness:
  "execute_abcd_assessment_for_videos example_cfg example_ext example_args example_bucket =
     Inr example_state
   \<and> example_assessment \<in> set (video_assessments (assessments example_state))
   \<and> passed_features_count example_assessment = 13
   \<and> length (filter feature_detected (features example_assessment)) = 13
   \<and> length (features example_assessment) = 23
   \<and> score example_assessment = of_nat (100 * 13) / of_nat 23"
proof -
  have mem: "example_assessment \<in> set (video_assessments (assessments example_state))"
    by (simp add: example_state_def)
  have len: "length (features example_assessment) = 23"
    by (simp add: example_assessment_def length_detect_features)
  have passed: "passed_features_count example_assessment = 13"
    by (simp add: example_assessment_def)
  from assessment_score [OF example_run mem] example_run mem len passed
  show ?thesis
    by simp
qed

text \<open>
  C9 as it is written, that all three results of \<^verbatim>\<open>detect_brand_visuals\<close> are in the
  feature list, fails for the video of the small brand.
\<close>

theorem brand_visuals_third_result_counterexample:
  "snd (snd (detect_brand_visuals example_ext () () ''gs://abcd/Acme/videos/small.mp4''
               ''Acme'' [''acme'']))
     \<notin> set (features example_assessment)
   \<and> length (features example_assessment) = 23"
  by (simp add: example_assessment_def detect_features_def example_defs
        empty_annotations_def empty_annotations_of_def)


text \<open>
  C9 (as the code has it). \<^verbatim>\<open>detect_brand_visuals\<close> returns three results, and
  the assessment of a video takes the first two: the overall and the first-5-seconds result
  are the sixth and seventh of the 23 features. The third result, the large logo in the
  first five seconds, is bound to a variable and never appended: replacing it by any other
  value leaves the assessment as it is. In the small brand the third result is not among
  the features of the assessed video.
\<close>

theorem brand_visuals_two_results:
  "\<exists>va. assess_video cfg ext args video vn vnf = Inr va
     \<and> (case detect_brand_visuals ext
               (text_annotation_results (annotations_for ext args vn))
               (logo_annotation_results (annotations_for ext args vn))
               (video_uri va) (brand_name args) (brand_variations args) of
          (brand_visuals, brand_visuals_1st_5_secs, brand_visuals_logo_big_1st_5_secs) \<Rightarrow>
            features va ! 5 = brand_visuals
            \<and> features va ! 6 = brand_visuals_1st_5_secs
            \<and> length (features va) = 23
            \<and> assess_video cfg
                 (ext\<lparr>detect_brand_visuals := \<lambda>t l u b vs.
                     (case detect_brand_visuals ext t l u b vs of
                        (first, second, third) \<Rightarrow> (first, second, other))\<rparr>)
                 args video vn vnf
               = Inr va)"
proof -
  let ?ext' = "ext\<lparr>detect_brand_visuals := \<lambda>t l u b vs.
                     (case detect_brand_visuals ext t l u b vs of
                        (first, second, third) \<Rightarrow> (first, second, other))\<rparr>"
  have ann: "annotations_for ?ext' args vn = annotations_for ext args vn"
    by (simp add: annotations_for_def empty_annotations_def)
  have same: "assess_video cfg ?ext' args video vn vnf = assess_video cfg ext args video vn vnf"
    unfolding assess_video_eq ann detect_features_third_unused ..
  show ?thesis
    unfolding same
    by (simp add: assess_video_eq detect_features_brand_visuals length_detect_features
          split_beta del: append.simps)
qed

subsection \<open>Classification bands\<close>

lemma bands_append: "bands (xs @ ys) = bands xs @ bands ys"
  by (induction xs rule: bands.induct) auto

lemma bands_feature_lines:
  "bands (map (\<lambda>f. Feature_line (feature_detected f) (feature f)) fs) = []"
  by (induction fs) auto

text \<open>The console printer shows the band of the stored score.\<close>

lemma bands_print_video_assessment:
  "bands (print_video_assessment cfg brand va) = [band_of (score va)]"
  by (simp add: print_video_assessment_def Let_def bands_append bands_feature_lines band_of_def
        del: append.simps)

lemma bands_print_abcd_assetssments:
  "bands (print_abcd_assetssments cfg a brand) =
     map (\<lambda>va. band_of (score va)) (video_assessments a)"
proof -
  have "bands (concat (map (print_video_assessment cfg brand) vas)) =
          map (\<lambda>va. band_of (score va)) vas" for vas
    by (induction vas) (simp_all add: bands_append bands_print_video_assessment)
  then show ?thesis by (simp add: print_abcd_assetssments_def)
qed

text \<open>The digest shows the band of the score rounded to two decimals.\<close>

lemma bands_format_video_assessment:
  "bands (format_video_assessment va) = [band_of (py_round2 (score va))]"
  by (simp add: format_video_assessment_def Let_def bands_append bands_feature_lines band_of_def
        del: append.simps)

lemma bands_format_assessment_results:
  "bands (format_assessment_results a) =
     map (\<lambda>va. band_of (py_round2 (score va))) (video_assessments a)"
proof -
  have "bands (concat (map format_video_assessment vas)) =
          map (\<lambda>va. band_of (py_round2 (score va))) vas" for vas
    by (induction vas) (simp_all add: bands_append bands_format_video_assessment)
  then show ?thesis by (simp add: format_assessment_results_def)
qed

lemma round_half_even_up:
  assumes "of_int n + 1 / 2 < x" and "x < of_int n + 1"
  shows "round_half_even x = n + 1"
proof -
  have "\<lfloor>x\<rfloor> = n" using assms by (simp add: floor_eq_iff)
  then show ?thesis using assms by (simp add: round_half_even_def Let_def)
qed

lemma round_half_even_down:
  assumes "of_int n \<le> x" and "x < of_int n + 1 / 2"
  shows "round_half_even x = n"
proof -
  have "\<lfloor>x\<rfloor> = n" using assms by (simp add: floor_eq_iff)
  then show ?thesis using assms by (simp add: round_half_even_def Let_def)
qed

lemma py_round2_near_80: "py_round2 (80075 / 1001) = 80"
  using round_half_even_up [of 7999 "80075 / 1001 * 100"] by (simp add: py_round2_def)

text \<open>The four scores that the specification names are their own roundings.\<close>

lemma py_round2_boundaries:
  "py_round2 80 = 80" "py_round2 65 = 65" "py_round2 (7999 / 100) = 7999 / 100"
  "py_round2 (6499 / 100) = 6499 / 100"
  using round_half_even_down [of 8000 8000] round_half_even_down [of 6500 6500]
    round_half_even_down [of 7999 7999] round_half_even_down [of 6499 6499]
  by (simp_all add: py_round2_def)

lemma boundary_bands:
  "band_of (py_round2 80) = Excellent" "band_of 80 = Excellent"
  "band_of (py_round2 65) = Might_Improve" "band_of 65 = Might_Improve"
  "band_of (py_round2 (7999 / 100)) = Might_Improve" "band_of (7999 / 100) = Might_Improve"
  "band_of (py_round2 (6499 / 100)) = Needs_Review" "band_of (6499 / 100) = Needs_Review"
  by (simp_all add: py_round2_boundaries band_of_def)

lemma near_80_consistent:
  "passed_features_count near_80_assessment
     = length (filter feature_detected (features near_80_assessment))
   \<and> score near_80_assessment
     = of_nat (100 * passed_features_count near_80_assessment)
       / of_nat (length (features near_80_assessment))"
  by (simp add: near_80_assessment_def example_feature_def)

text \<open>
  Away from the scores of the pass the digest follows the rounded score: for an assessment
  with 3203 of 4004 features detected the score is below 80 and its rounding is 80.0, so
  the digest shows "Excellent" where the console printer shows "Might Improve".
\<close>

lemma digest_band_of_rounded_score:
  "bands (format_assessment_results near_80_report) = [Excellent]
   \<and> bands (print_abcd_assetssments example_cfg near_80_report ''Acme'') = [Might_Improve]
   \<and> 65 \<le> score near_80_assessment \<and> score near_80_assessment < 80"
  by (simp add: bands_format_assessment_results bands_print_abcd_assetssments near_80_report_def
        near_80_assessment_def py_round2_near_80 band_of_def)

lemma round_half_even_ge:
  assumes "of_int n \<le> y"
  shows "n \<le> round_half_even y"
proof -
  from assms have "n \<le> \<lfloor>y\<rfloor>" by (simp add: le_floor_iff)
  then show ?thesis by (simp add: round_half_even_def Let_def)
qed

lemma round_half_even_less:
  assumes "y < of_int n - 1 / 2"
  shows "round_half_even y < n"
proof -
  have f: "of_int \<lfloor>y\<rfloor> \<le> y" by simp
  show ?thesis
  proof (cases "y - of_int \<lfloor>y\<rfloor> < 1 / 2")
    case True
    from f assms have "of_int \<lfloor>y\<rfloor> < (of_int n :: rat)" by linarith
    then have "\<lfloor>y\<rfloor> < n" by simp
    with True show ?thesis by (simp add: round_half_even_def Let_def)
  next
    case False
    with assms have "of_int \<lfloor>y\<rfloor> + 1 < (of_int n :: rat)" by linarith
    then have "of_int (\<lfloor>y\<rfloor> + 1) < (of_int n :: rat)" by simp
    then have "\<lfloor>y\<rfloor> + 1 < n" by (simp only: of_int_less_iff)
    then show ?thesis by (simp add: round_half_even_def Let_def)
  qed
qed

lemma py_round2_ge:
  assumes "of_int n \<le> s"
  shows "of_int n \<le> py_round2 s"
proof -
  have "of_int (n * 100) \<le> s * 100" using assms by simp
  from round_half_even_ge [OF this] have "of_int (n * 100) \<le> (of_int (round_half_even (s * 100)) :: rat)"
    by (simp only: of_int_le_iff)
  then show ?thesis by (simp add: py_round2_def)
qed

lemma py_round2_less:
  assumes "s < of_int n - 5 / 1000"
  shows "py_round2 s < of_int n"
proof -
  have "s * 100 < of_int (n * 100) - 1 / 2" using assms by simp
  from round_half_even_less [OF this] have "(of_int (round_half_even (s * 100)) :: rat) < of_int (n * 100)"
    by (simp only: of_int_less_iff)
  then show ?thesis by (simp add: py_round2_def)
qed

lemma band_of_py_round2:
  assumes "80 \<le> s \<or> s < 79995 / 1000" and "65 \<le> s \<or> s < 64995 / 1000"
  shows "band_of (py_round2 s) = band_of s"
proof -
  have a: "80 \<le> s \<Longrightarrow> 80 \<le> py_round2 s" using py_round2_ge [of 80 s] by simp
  have b: "s < 79995 / 1000 \<Longrightarrow> py_round2 s < 80" using py_round2_less [of s 80] by simp
  have c: "65 \<le> s \<Longrightarrow> 65 \<le> py_round2 s" using py_round2_ge [of 65 s] by simp
  have d: "s < 64995 / 1000 \<Longrightarrow> py_round2 s < 65" using py_round2_less [of s 65] by simp
  from assms a b c d show ?thesis
    unfolding band_of_def by (smt (verit) not_le)
qed

text \<open>A score of the pipeline, \<open>100 p / 23\<close>, is far from both thresholds.\<close>

lemma band_of_score_of_23:
  fixes p :: nat
  assumes "s * 23 = 100 * of_nat p"
  shows "band_of (py_round2 s) = band_of s"
proof -
  have hi: "80 \<le> s \<or> s < 79995 / 1000"
  proof (cases "19 \<le> p")
    case True
    then have "(19::rat) \<le> of_nat p" by (metis of_nat_le_iff of_nat_numeral)
    with assms show ?thesis by linarith
  next
    case False
    then have "p \<le> 18" by simp
    then have "(of_nat p :: rat) \<le> 18" by (metis of_nat_le_iff of_nat_numeral)
    with assms show ?thesis by linarith
  qed
  have lo: "65 \<le> s \<or> s < 64995 / 1000"
  proof (cases "15 \<le> p")
    case True
    then have "(15::rat) \<le> of_nat p" by (metis of_nat_le_iff of_nat_numeral)
    with assms show ?thesis by linarith
  next
    case False
    then have "p \<le> 14" by simp
    then have "(of_nat p :: rat) \<le> 14" by (metis of_nat_le_iff of_nat_numeral)
    with assms show ?thesis by linarith
  qed
  from hi lo show ?thesis by (rule band_of_py_round2)
qed

lemma assessed_band:
  assumes "assess_video cfg ext args v vn vnf = Inr va"
  shows "band_of (py_round2 (score va)) = band_of (score va)"
proof -
  from assess_video_Inr [OF assms] have
    "score va * 23 = 100 * of_nat (passed_features_count va)" by simp
  then show ?thesis by (rule band_of_score_of_23)
qed

text \<open>
  C2. For every report that the assessment pass returns, both renderers show for each video
  the band of its score: "Excellent" from 80, "Might Improve" from 65 up to 80, "Needs
  Review" below 65. The console printer compares the stored score, the digest the score
  rounded to two decimals, and for the scores of the pass, \<open>100 p / 23\<close>, the two give the
  same band. For a video whose score is exactly 80, 65, 79.99 or 64.99 both renderers show
  "Excellent", "Might Improve", "Might Improve" and "Needs Review".
\<close>

theorem classification_bands:
  assumes "execute_abcd_assessment_for_videos cfg ext args bucket = Inr st"
  shows "bands (format_assessment_results (assessments st))
           = map (\<lambda>va. band_of (score va)) (video_assessments (assessments st))
         \<and> bands (print_abcd_assetssments cfg (assessments st) brand)
           = map (\<lambda>va. band_of (score va)) (video_assessments (assessments st))
         \<and> bands (format_video_assessment (va\<lparr>score := 80\<rparr>)) = [Excellent]
         \<and> bands (print_video_assessment cfg brand (va\<lparr>score := 80\<rparr>)) = [Excellent]
         \<and> bands (format_video_assessment (va\<lparr>score := 65\<rparr>)) = [Might_Improve]
         \<and> bands (print_video_assessment cfg brand (va\<lparr>score := 65\<rparr>)) = [Might_Improve]
         \<and> bands (format_video_assessment (va\<lparr>score := 7999 / 100\<rparr>)) = [Might_Improve]
         \<and> bands (print_video_assessment cfg brand (va\<lparr>score := 7999 / 100\<rparr>)) = [Might_Improve]
         \<and> bands (format_video_assessment (va\<lparr>score := 6499 / 100\<rparr>)) = [Needs_Review]
         \<and> bands (print_video_assessment cfg brand (va\<lparr>score := 6499 / 100\<rparr>)) = [Needs_Review]"
proof -
  have "band_of (py_round2 (score x)) = band_of (score x)"
    if "x \<in> set (video_assessments (assessments st))" for x
  proof -
    from assms that obtain v vn vnf where "assess_video cfg ext args v vn vnf = Inr x"
      unfolding execute_abcd_assessment_for_videos_def by (auto dest: assess_loop_new)
    then show ?thesis by (rule assessed_band)
  qed
  then have "map (\<lambda>va. band_of (py_round2 (score va))) (video_assessments (assessments st))
               = map (\<lambda>va. band_of (score va)) (video_assessments (assessments st))"
    by simp
  then show ?thesis
    by (simp add: bands_format_assessment_results bands_print_abcd_assetssments
          bands_format_video_assessment bands_print_video_assessment boundary_bands)
qed

theorem classification_bands_witness:
  "execute_abcd_assessment_for_videos example_cfg example_ext example_args example_bucket
     = Inr example_state
   \<and> score example_assessment = 1300 / 23
   \<and> bands (format_assessment_results (assessments example_state)) = [Needs_Review]
   \<and> bands (print_abcd_assetssments example_cfg (assessments example_state) ''Acme'')
       = [Needs_Review]"
proof -
  have v: "video_assessments (assessments example_state) = [example_assessment]"
    by (simp add: example_state_def)
  have s: "score example_assessment = 1300 / 23" by (simp add: example_assessment_def)
  from classification_bands [OF example_run, where brand = "''Acme''"] example_run v s
  show ?thesis by (simp add: band_of_def)
qed

subsection \<open>Strings and the store\<close>

lemma py_in_prefix: "prefix n ys \<Longrightarrow> py_in n ys"
  by (cases ys) auto

lemma py_in_append_left: "py_in n ys \<Longrightarrow> py_in n (xs @ ys)"
  by (induction xs) auto

lemma py_in_middle: "py_in n (xs @ n @ zs)"
  by (rule py_in_append_left, rule py_in_prefix) simp

lemma preview_path_skipped: "skipped_name brand (preview_path brand v)"
proof -
  obtain a b where names: "video_names v = (a, b)" by (cases "video_names v")
  have "preview_path brand v =
          (brand_videos_folder brand @ ''/'' @ a @ ''_'') @ ''1st_5_secs''
          @ (''.'' @ get_video_format b)"
    by (simp add: preview_path_def video_name_1st_5_secs_def names)
  then show ?thesis
    unfolding skipped_name_def using py_in_middle by metis
qed

lemma get_blob_None_iff: "get_blob bucket n = None \<longleftrightarrow> n \<notin> blob_name ` set bucket"
  by (auto simp: get_blob_def find_None_iff)

lemma get_blob_distinct:
  "distinct (map blob_name bucket) \<Longrightarrow> v \<in> set bucket \<Longrightarrow> get_blob bucket (blob_name v) = Some v"
  unfolding get_blob_def by (induction bucket) (auto simp: image_iff)

lemma list_blobs_append: "list_blobs (b @ c) p = list_blobs b p @ list_blobs c p"
  by (simp add: list_blobs_def)

lemma list_blobs_subset: "set (list_blobs b p) \<subseteq> set b"
  by (auto simp: list_blobs_def)

subsection \<open>Names\<close>

lemma well_formed_names:
  assumes "count_list (blob_name v) CHR ''/'' = 2"
  shows "unpack2 (get_file_name_from_gcs_url (blob_name v)) = Inr (video_names v)"
  using assms
  by (simp add: video_names_def get_file_name_from_gcs_url_def Let_def length_split_on)

lemma malformed_names:
  assumes "count_list (blob_name v) CHR ''/'' \<noteq> 2"
  shows "unpack2 (get_file_name_from_gcs_url (blob_name v)) = Inl ValueError"
  using assms
  by (simp add: get_file_name_from_gcs_url_def Let_def length_split_on)

subsection \<open>One pass of the assessment loop\<close>

lemma assess_one_skipped:
  "skipped_name (brand_name args) (blob_name v) \<Longrightarrow> assess_one cfg ext args bucket v st = Inr st"
  by (simp add: assess_one_def)

lemma assess_one_malformed:
  assumes "\<not> skipped_name (brand_name args) (blob_name v)"
      and "count_list (blob_name v) CHR ''/'' \<noteq> 2"
  shows "assess_one cfg ext args bucket v st = Inl ValueError"
  using assms by (simp add: assess_one_def malformed_names)

lemma assess_one_well_named:
  assumes "well_named (brand_name args) v" and "get_blob bucket (blob_name v) = Some v"
  shows "\<exists>st'. assess_one cfg ext args bucket v st = Inr st'
           \<and> assessment_brand_name (assessments st') = assessment_brand_name (assessments st)
           \<and> map Inr (video_assessments (assessments st')) =
               map Inr (video_assessments (assessments st))
               @ (if assessable cfg args v
                  then [assess_video cfg ext args v (fst (video_names v)) (snd (video_names v))]
                  else [])"
proof (cases "skipped_name (brand_name args) (blob_name v)")
  case True
  then show ?thesis by (simp add: assess_one_skipped assessable_def)
next
  case False
  with assms(1) have "count_list (blob_name v) CHR ''/'' = 2"
    by (simp add: well_named_def)
  from well_formed_names [OF this] obtain a b where
    u: "unpack2 (get_file_name_from_gcs_url (blob_name v)) = Inr (a, b)"
    and n: "video_names v = (a, b)"
    by (cases "video_names v") auto
  obtain va where va: "assess_video cfg ext args v a b = Inr va"
    using assess_video_total by blast
  show ?thesis
    using False u n va assms(2)
    by (simp add: assess_one_def assessable_def)
qed

lemma assess_loop_well_named:
  assumes "\<forall>v\<in>set vs. well_named (brand_name args) v"
      and "\<forall>v\<in>set vs. get_blob bucket (blob_name v) = Some v"
  shows "\<exists>st'. assess_loop cfg ext args bucket vs st = Inr st'
           \<and> assessment_brand_name (assessments st') = assessment_brand_name (assessments st)
           \<and> map Inr (video_assessments (assessments st')) =
               map Inr (video_assessments (assessments st))
               @ map (\<lambda>v. assess_video cfg ext args v (fst (video_names v)) (snd (video_names v)))
                   (filter (assessable cfg args) vs)"
  using assms
proof (induction vs arbitrary: st)
  case Nil
  then show ?case by simp
next
  case (Cons v vs)
  from Cons.prems have wn: "well_named (brand_name args) v"
    and gb: "get_blob bucket (blob_name v) = Some v" by simp_all
  from assess_one_well_named [OF wn gb, of cfg ext st] obtain st1 where
    one: "assess_one cfg ext args bucket v st = Inr st1"
    and br1: "assessment_brand_name (assessments st1) = assessment_brand_name (assessments st)"
    and va1: "map Inr (video_assessments (assessments st1)) =
               map Inr (video_assessments (assessments st))
               @ (if assessable cfg args v
                  then [assess_video cfg ext args v (fst (video_names v)) (snd (video_names v))]
                  else [])"
    by blast
  from Cons.IH [of st1] Cons.prems obtain st' where
    rest: "assess_loop cfg ext args bucket vs st1 = Inr st'"
    and br: "assessment_brand_name (assessments st') = assessment_brand_name (assessments st1)"
    and va: "map Inr (video_assessments (assessments st')) =
               map Inr (video_assessments (assessments st1))
               @ map (\<lambda>v. assess_video cfg ext args v (fst (video_names v)) (snd (video_names v)))
                   (filter (assessable cfg args) vs)"
    by auto
  show ?case
    using one rest br br1 va va1 by simp
qed

lemma assess_loop_malformed:
  assumes "v \<in> set vs" and "\<not> skipped_name (brand_name args) (blob_name v)"
      and "count_list (blob_name v) CHR ''/'' \<noteq> 2"
  shows "\<exists>e. assess_loop cfg ext args bucket vs st = Inl e"
  using assms(1)
proof (induction vs arbitrary: st)
  case Nil
  then show ?case by simp
next
  case (Cons w ws)
  show ?case
  proof (cases "assess_one cfg ext args bucket w st")
    case (Inl e)
    then show ?thesis by simp
  next
    case (Inr st1)
    have "w \<noteq> v"
      using Inr assess_one_malformed [OF assms(2,3), of cfg ext bucket st] by auto
    with Cons.prems have "v \<in> set ws" by simp
    from Cons.IH [OF this, of st1] Inr show ?thesis by simp
  qed
qed

subsection \<open>One pass of the trimming loop\<close>

lemma trim_one_skipped:
  "skipped_name brand (blob_name v) \<Longrightarrow> trim_one ext brand v s = Inr s"
  by (cases s) (simp add: trim_one_def)

lemma trim_one_malformed:
  assumes "\<not> skipped_name brand (blob_name v)" and "count_list (blob_name v) CHR ''/'' \<noteq> 2"
  shows "trim_one ext brand v s = Inl ValueError"
  using assms by (cases s) (simp add: trim_one_def malformed_names)

lemma trim_one_hit:
  assumes "\<not> skipped_name brand (blob_name v)" and "count_list (blob_name v) CHR ''/'' = 2"
      and "preview_path brand v \<in> blob_name ` set bucket"
  shows "trim_one ext brand v (bucket, evs) = Inr (bucket, evs @ [Already_trimmed (blob_name v)])"
proof -
  obtain a b where n: "video_names v = (a, b)" by (cases "video_names v")
  from assms(3) obtain m where "get_blob bucket (preview_path brand v) = Some m"
    using get_blob_None_iff [of bucket "preview_path brand v"] by auto
  then show ?thesis
    using assms(1) well_formed_names [OF assms(2)] n
    by (simp add: trim_one_def preview_path_def Let_def)
qed

lemma trim_one_miss:
  assumes "\<not> skipped_name brand (blob_name v)" and "count_list (blob_name v) CHR ''/'' = 2"
      and "preview_path brand v \<notin> blob_name ` set bucket"
  shows "trim_one ext brand v (bucket, evs) =
           Inr (bucket @ [\<lparr>blob_name = preview_path brand v,
                           blob_size = clip_size ext (snd (video_names v))\<rparr>],
                evs @ [Downloaded (blob_name v),
                       Trimmed (snd (video_names v))
                         (video_name_1st_5_secs (fst (video_names v)) (snd (video_names v))),
                       Uploaded (preview_path brand v)])"
proof -
  obtain a b where n: "video_names v = (a, b)" by (cases "video_names v")
  from assms(3) have "get_blob bucket (preview_path brand v) = None"
    by (simp add: get_blob_None_iff)
  then show ?thesis
    using assms(1) well_formed_names [OF assms(2)] n
    by (simp add: trim_one_def preview_path_def Let_def trim_and_push_video_to_gcs_def
          upload_if_generation_match_0_def write_clip_def download_and_save_video_def)
qed

text \<open>What one pass does to the store, for a well-named object.\<close>

lemma trim_one_well_named:
  assumes "well_named brand v"
  shows "\<exists>news evs'. trim_one ext brand v (bucket, evs) = Inr (bucket @ news, evs')
           \<and> (\<forall>n\<in>set news. skipped_name brand (blob_name n))
           \<and> (distinct (map blob_name bucket) \<longrightarrow> distinct (map blob_name (bucket @ news)))
           \<and> (skipped_name brand (blob_name v)
               \<or> preview_path brand v \<in> blob_name ` set (bucket @ news))"
proof (cases "skipped_name brand (blob_name v)")
  case True
  then have "trim_one ext brand v (bucket, evs) = Inr (bucket @ [], evs)"
    by (simp add: trim_one_skipped)
  with True show ?thesis by fastforce
next
  case False
  with assms have c: "count_list (blob_name v) CHR ''/'' = 2" by (simp add: well_named_def)
  show ?thesis
  proof (cases "preview_path brand v \<in> blob_name ` set bucket")
    case True
    from trim_one_hit [OF False c True, of ext evs]
    have "trim_one ext brand v (bucket, evs) =
            Inr (bucket @ [], evs @ [Already_trimmed (blob_name v)])" by simp
    with True show ?thesis by fastforce
  next
    case miss: False
    let ?new = "\<lparr>blob_name = preview_path brand v, blob_size = clip_size ext (snd (video_names v))\<rparr>"
    from trim_one_miss [OF False c miss, of ext evs] obtain evs' where
      "trim_one ext brand v (bucket, evs) = Inr (bucket @ [?new], evs')" by simp
    moreover have "\<forall>n\<in>set [?new]. skipped_name brand (blob_name n)"
      by (simp add: preview_path_skipped)
    moreover have "distinct (map blob_name bucket) \<longrightarrow> distinct (map blob_name (bucket @ [?new]))"
      using miss by simp
    moreover have "preview_path brand v \<in> blob_name ` set (bucket @ [?new])" by simp
    ultimately show ?thesis by blast
  qed
qed

lemma trim_loop_well_named:
  assumes "\<forall>v\<in>set vs. well_named brand v"
  shows "\<exists>news evs'. trim_loop ext brand vs (bucket, evs) = Inr (bucket @ news, evs')
           \<and> (\<forall>n\<in>set news. skipped_name brand (blob_name n))
           \<and> (distinct (map blob_name bucket) \<longrightarrow> distinct (map blob_name (bucket @ news)))
           \<and> (\<forall>v\<in>set vs. skipped_name brand (blob_name v)
                 \<or> preview_path brand v \<in> blob_name ` set (bucket @ news))"
  using assms
proof (induction vs arbitrary: bucket evs)
  case Nil
  have "trim_loop ext brand [] (bucket, evs) = Inr (bucket @ [], evs)" by simp
  then show ?case by fastforce
next
  case (Cons v vs)
  from Cons.prems have wn: "well_named brand v" by simp
  from trim_one_well_named [OF wn, of ext bucket evs] obtain n1 e1 where
    one: "trim_one ext brand v (bucket, evs) = Inr (bucket @ n1, e1)"
    and sk1: "\<forall>n\<in>set n1. skipped_name brand (blob_name n)"
    and d1: "distinct (map blob_name bucket) \<longrightarrow> distinct (map blob_name (bucket @ n1))"
    and p1: "skipped_name brand (blob_name v)
               \<or> preview_path brand v \<in> blob_name ` set (bucket @ n1)"
    by blast
  from Cons.IH [of "bucket @ n1" e1] Cons.prems obtain n2 e2 where
    rest: "trim_loop ext brand vs (bucket @ n1, e1) = Inr ((bucket @ n1) @ n2, e2)"
    and sk2: "\<forall>n\<in>set n2. skipped_name brand (blob_name n)"
    and d2: "distinct (map blob_name (bucket @ n1))
               \<longrightarrow> distinct (map blob_name ((bucket @ n1) @ n2))"
    and p2: "\<forall>v\<in>set vs. skipped_name brand (blob_name v)
                 \<or> preview_path brand v \<in> blob_name ` set ((bucket @ n1) @ n2)"
    by auto
  have "trim_loop ext brand (v # vs) (bucket, evs) = Inr (bucket @ (n1 @ n2), e2)"
    using one rest by simp
  moreover have "\<forall>n\<in>set (n1 @ n2). skipped_name brand (blob_name n)"
    using sk1 sk2 by auto
  moreover have "distinct (map blob_name bucket)
                   \<longrightarrow> distinct (map blob_name (bucket @ (n1 @ n2)))"
    using d1 d2 by simp
  moreover have "\<forall>w\<in>set (v # vs). skipped_name brand (blob_name w)
                   \<or> preview_path brand w \<in> blob_name ` set (bucket @ (n1 @ n2))"
    using p1 p2 by auto
  ultimately show ?case by blast
qed

text \<open>A successful run met no malformed candidate.\<close>

lemma trim_loop_Inr_well_named:
  assumes "trim_loop ext brand vs s = Inr s'"
  shows "\<forall>v\<in>set vs. well_named brand v"
  using assms
proof (induction vs arbitrary: s)
  case Nil
  then show ?case by simp
next
  case (Cons v vs)
  from Cons.prems obtain s1 where one: "trim_one ext brand v s = Inr s1"
    and rest: "trim_loop ext brand vs s1 = Inr s'"
    by (auto split: sum.splits)
  have "well_named brand v"
    using one trim_one_malformed [of brand v ext s] by (auto simp: well_named_def)
  with Cons.IH [OF rest] show ?case by simp
qed

text \<open>When every candidate has its clip, the loop changes nothing in the store.\<close>

lemma trim_loop_all_hits:
  assumes "\<forall>v\<in>set vs. skipped_name brand (blob_name v)
             \<or> (count_list (blob_name v) CHR ''/'' = 2
                \<and> preview_path brand v \<in> blob_name ` set bucket)"
  shows "trim_loop ext brand vs (bucket, evs) =
           Inr (bucket, evs @ map (\<lambda>v. Already_trimmed (blob_name v))
                                (filter (\<lambda>v. \<not> skipped_name brand (blob_name v)) vs))"
  using assms
proof (induction vs arbitrary: evs)
  case Nil
  then show ?case by simp
next
  case (Cons v vs)
  then show ?case
    by (cases "skipped_name brand (blob_name v)") (simp_all add: trim_one_skipped trim_one_hit)
qed

lemma trim_videos_again:
  assumes "trim_videos ext brand bucket = Inr (bucket', evs)"
  shows "trim_videos ext brand bucket' =
           Inr (bucket', map (\<lambda>v. Already_trimmed (blob_name v))
                           (filter (\<lambda>v. \<not> skipped_name brand (blob_name v))
                              (list_blobs bucket' (brand_videos_folder brand))))"
proof -
  let ?vs = "list_blobs bucket (brand_videos_folder brand)"
  from assms have run: "trim_loop ext brand ?vs (bucket, []) = Inr (bucket', evs)"
    by (simp add: trim_videos_def)
  from trim_loop_Inr_well_named [OF run] have wn: "\<forall>v\<in>set ?vs. well_named brand v" .
  from trim_loop_well_named [OF wn, of ext bucket "[]"] run obtain news where
    b': "bucket' = bucket @ news"
    and sk: "\<forall>n\<in>set news. skipped_name brand (blob_name n)"
    and pv: "\<forall>v\<in>set ?vs. skipped_name brand (blob_name v)
                 \<or> preview_path brand v \<in> blob_name ` set (bucket @ news)"
    by auto
  have "\<forall>v\<in>set (list_blobs bucket' (brand_videos_folder brand)).
          skipped_name brand (blob_name v)
          \<or> (count_list (blob_name v) CHR ''/'' = 2
             \<and> preview_path brand v \<in> blob_name ` set bucket')"
  proof
    fix v assume "v \<in> set (list_blobs bucket' (brand_videos_folder brand))"
    then consider "v \<in> set ?vs" | "v \<in> set news"
      using list_blobs_subset [of news "brand_videos_folder brand"]
      by (auto simp: b' list_blobs_append)
    then show "skipped_name brand (blob_name v)
          \<or> (count_list (blob_name v) CHR ''/'' = 2
             \<and> preview_path brand v \<in> blob_name ` set bucket')"
    proof cases
      case 1
      with wn pv show ?thesis by (auto simp: well_named_def b')
    next
      case 2
      with sk show ?thesis by simp
    qed
  qed
  from trim_loop_all_hits [OF this, of ext "[]"] show ?thesis
    by (simp add: trim_videos_def)
qed

subsection \<open>Malformed names, the size gate and the empty result\<close>

lemmas trim_defs =
  trim_videos_def list_blobs_def brand_videos_folder_def trim_one_def skipped_name_def
  get_file_name_from_gcs_url_def video_name_1st_5_secs_def get_video_format_def get_blob_def
  trim_and_push_video_to_gcs_def upload_if_generation_match_0_def write_clip_def
  download_and_save_video_def Let_def

text \<open>
  C4, evaluated on a store where the claim fails. The store holds
  \<^verbatim>\<open>Acme/videos/2024/clip.mp4\<close>, whose path has four parts, before
  \<^verbatim>\<open>Acme/videos/small.mp4\<close>. The claim has the first skipped with a diagnostic and the
  second assessed. In the code the unpacking of the single empty string raises
  \<^verbatim>\<open>ValueError\<close> before the test of line 111 is reached: the trimming pass, the
  assessment pass and the whole run end with the exception, and no video is assessed.
\<close>

theorem malformed_name_is_fatal:
  "trim_videos example_ext ''Acme'' nested_bucket = Inl ValueError
   \<and> execute_abcd_assessment_for_videos example_cfg example_ext example_args nested_bucket
       = Inl ValueError
   \<and> execute_abcd_detector example_cfg example_ext example_args nested_bucket = Inl ValueError"
proof -
  have t: "trim_videos example_ext ''Acme'' nested_bucket = Inl ValueError"
    by (simp add: trim_defs nested_bucket_def)
  have a: "execute_abcd_assessment_for_videos example_cfg example_ext example_args nested_bucket
       = Inl ValueError"
    by (simp add: execute_abcd_assessment_for_videos_def list_blobs_def brand_videos_folder_def
          assess_one_def skipped_name_def get_file_name_from_gcs_url_def Let_def
          nested_bucket_def example_args_def)
  have "execute_abcd_detector example_cfg example_ext example_args nested_bucket = Inl ValueError"
    using t by (simp add: execute_abcd_detector_def example_args_def)
  with t a show ?thesis by simp
qed

text \<open>
  C6. With \<^verbatim>\<open>use_llms\<close> set, on a store whose candidates are well named, the
  assessment pass returns, and its assessments are, in listing order, those of the candidates
  with resolved names whose size in bytes divided by \<open>10\<^sup>6\<close> is at most
  \<^verbatim>\<open>VIDEO_SIZE_LIMIT_MB\<close>: a video over the limit contributes no assessment and does
  not end the run, a video at or under the limit has the assessment that
  \<^verbatim>\<open>assess_video\<close> computes for it.
\<close>

theorem size_gate:
  assumes "use_llms args"
      and "\<forall>v\<in>set (list_blobs bucket (brand_videos_folder (brand_name args))).
             well_named (brand_name args) v"
      and "distinct (map blob_name bucket)"
  shows "\<exists>st. execute_abcd_assessment_for_videos cfg ext args bucket = Inr st
           \<and> map Inr (video_assessments (assessments st)) =
               map (\<lambda>v. assess_video cfg ext args v (fst (video_names v)) (snd (video_names v)))
                 (filter (\<lambda>v. \<not> skipped_name (brand_name args) (blob_name v)
                              \<and> fst (video_names v) \<noteq> [] \<and> snd (video_names v) \<noteq> []
                              \<and> of_nat (blob_size v) / 1000000 \<le> VIDEO_SIZE_LIMIT_MB cfg)
                    (list_blobs bucket (brand_videos_folder (brand_name args))))"
proof -
  let ?vs = "list_blobs bucket (brand_videos_folder (brand_name args))"
  have gb: "\<forall>v\<in>set ?vs. get_blob bucket (blob_name v) = Some v"
    using get_blob_distinct [OF assms(3)] list_blobs_subset by blast
  have f: "assessable cfg args =
             (\<lambda>v. \<not> skipped_name (brand_name args) (blob_name v)
                   \<and> fst (video_names v) \<noteq> [] \<and> snd (video_names v) \<noteq> []
                   \<and> of_nat (blob_size v) / 1000000 \<le> VIDEO_SIZE_LIMIT_MB cfg)"
    using assms(1) by (auto simp: assessable_def oversize_def fun_eq_iff)
  from assess_loop_well_named [OF assms(2) gb, of cfg ext
      "\<lparr>assessments = \<lparr>assessment_brand_name = brand_name args, video_assessments = []\<rparr>,
        events = []\<rparr>"]
  show ?thesis
    unfolding execute_abcd_assessment_for_videos_def f by auto
qed

lemma example_listing:
  "list_blobs example_bucket (brand_videos_folder (brand_name example_args)) = example_bucket"
  by (simp add: list_blobs_def example_bucket_def brand_videos_folder_def example_args_def)

lemma example_well_named:
  "\<forall>v\<in>set example_bucket. well_named (brand_name example_args) v"
  by (simp add: example_bucket_def well_named_def skipped_name_def brand_videos_folder_def
        example_args_def)

text \<open>
  In the small brand the limit is 7 MB: the video of 9 MB is passed over and the video of
  4 MB is assessed.
\<close>

theorem size_gate_witness:
  "use_llms example_args \<and> distinct (map blob_name example_bucket)
   \<and> list_all (well_named (brand_name example_args))
       (list_blobs example_bucket (brand_videos_folder (brand_name example_args)))
   \<and> (\<exists>st. execute_abcd_assessment_for_videos example_cfg example_ext example_args example_bucket
              = Inr st
          \<and> map Inr (video_assessments (assessments st)) =
              [assess_video example_cfg example_ext example_args
                 \<lparr>blob_name = ''Acme/videos/small.mp4'', blob_size = 4000000\<rparr>
                 ''small'' ''small.mp4''])"
proof -
  have u: "use_llms example_args" by (simp add: example_args_def)
  have d: "distinct (map blob_name example_bucket)" by (simp add: example_bucket_def)
  have w: "\<forall>v\<in>set (list_blobs example_bucket (brand_videos_folder (brand_name example_args))).
             well_named (brand_name example_args) v"
    unfolding example_listing by (rule example_well_named)
  have sel: "filter (\<lambda>v. \<not> skipped_name (brand_name example_args) (blob_name v)
                              \<and> fst (video_names v) \<noteq> [] \<and> snd (video_names v) \<noteq> []
                              \<and> of_nat (blob_size v) / 1000000 \<le> VIDEO_SIZE_LIMIT_MB example_cfg)
               example_bucket
             = [\<lparr>blob_name = ''Acme/videos/small.mp4'', blob_size = 4000000\<rparr>]"
    by (simp add: example_bucket_def skipped_name_def brand_videos_folder_def example_args_def
          video_names_def get_file_name_from_gcs_url_def example_cfg_def Let_def)
  have n: "video_names \<lparr>blob_name = ''Acme/videos/small.mp4'', blob_size = 4000000\<rparr>
             = (''small'', ''small.mp4'')"
    by (simp add: video_names_def get_file_name_from_gcs_url_def Let_def)
  from size_gate [OF u w d, of example_cfg example_ext] u d w
  show ?thesis
    unfolding example_listing sel by (simp add: n list_all_iff)
qed

lemma filter_assessable_skipped:
  assumes "\<forall>n\<in>set news. skipped_name (brand_name args) (blob_name n)"
  shows "filter (assessable cfg args) news = []"
  using assms by (induction news) (auto simp: assessable_def)

text \<open>
  C5 (as the code has it). On a store whose candidates are well named,
  \<^verbatim>\<open>execute_abcd_detector\<close> ends with \<^verbatim>\<open>SystemExit\<close> exactly when no video
  yields an assessment, whatever the reason, and otherwise returns the report whose
  assessments are those of all the videos that were not passed over, in listing order,
  together with what \<^verbatim>\<open>print_abcd_assetssments\<close> printed for that report.
\<close>

theorem detector_outcome:
  assumes B: "B = (if use_annotations args
                   then generate_video_annotations ext (brand_name args) bucket else bucket)"
      and wn: "\<forall>v\<in>set (list_blobs B (brand_videos_folder (brand_name args))).
                 well_named (brand_name args) v"
      and d: "distinct (map blob_name B)"
  shows "if filter (assessable cfg args) (list_blobs B (brand_videos_folder (brand_name args))) = []
         then execute_abcd_detector cfg ext args bucket = Inl SystemExit
         else \<exists>a trimmed evs.
                execute_abcd_detector cfg ext args bucket =
                  Inr (a, trimmed, evs, print_abcd_assetssments cfg a (brand_name args))
                \<and> map Inr (video_assessments a) =
                    map (\<lambda>v. assess_video cfg ext args v (fst (video_names v)) (snd (video_names v)))
                      (filter (assessable cfg args)
                         (list_blobs B (brand_videos_folder (brand_name args))))"
proof -
  let ?brand = "brand_name args"
  let ?folder = "brand_videos_folder ?brand"
  from trim_loop_well_named [OF wn, of ext B "[]"] obtain news tevs where
    trim: "trim_videos ext ?brand B = Inr (B @ news, tevs)"
    and sk: "\<forall>n\<in>set news. skipped_name ?brand (blob_name n)"
    and dist: "distinct (map blob_name (B @ news))"
    using d by (auto simp: trim_videos_def)
  let ?T = "B @ news"
  have listing: "list_blobs ?T ?folder = list_blobs B ?folder @ list_blobs news ?folder"
    by (rule list_blobs_append)
  have sk': "\<forall>n\<in>set (list_blobs news ?folder). skipped_name ?brand (blob_name n)"
    using sk list_blobs_subset by blast
  have wnT: "\<forall>v\<in>set (list_blobs ?T ?folder). well_named ?brand v"
    using wn sk' by (auto simp: listing well_named_def)
  have gbT: "\<forall>v\<in>set (list_blobs ?T ?folder). get_blob ?T (blob_name v) = Some v"
    using get_blob_distinct [OF dist] list_blobs_subset by blast
  have sel: "filter (assessable cfg args) (list_blobs ?T ?folder)
               = filter (assessable cfg args) (list_blobs B ?folder)"
    by (simp add: listing filter_assessable_skipped [OF sk'])
  from assess_loop_well_named [OF wnT gbT, of cfg ext
      "\<lparr>assessments = \<lparr>assessment_brand_name = brand_name args, video_assessments = []\<rparr>,
        events = []\<rparr>"]
  obtain st where
    run: "execute_abcd_assessment_for_videos cfg ext args ?T = Inr st"
    and vas: "map Inr (video_assessments (assessments st)) =
               map (\<lambda>v. assess_video cfg ext args v (fst (video_names v)) (snd (video_names v)))
                 (filter (assessable cfg args) (list_blobs B ?folder))"
    unfolding execute_abcd_assessment_for_videos_def sel by auto
  from vas have empty_iff:
    "video_assessments (assessments st) = []
       \<longleftrightarrow> filter (assessable cfg args) (list_blobs B ?folder) = []"
    by (metis map_is_Nil_conv)
  have det: "execute_abcd_detector cfg ext args bucket =
          (if video_assessments (assessments st) = [] then Inl SystemExit
           else Inr (assessments st, ?T, tevs @ events st,
                     print_abcd_assetssments cfg (assessments st) ?brand))"
    using trim run unfolding execute_abcd_detector_def B [symmetric] by (simp add: Let_def)
  show ?thesis
    using det vas empty_iff by auto
qed

text \<open>
  C5 as it is written fails: a store with no video of the brand and a store whose only video
  is over the size limit give the caller the same outcome, \<^verbatim>\<open>SystemExit\<close>, so the
  caller cannot tell "no matching videos" from "all videos filtered".
\<close>

theorem empty_result_counterexample:
  "execute_abcd_detector example_cfg example_ext example_args no_videos_bucket = Inl SystemExit
   \<and> execute_abcd_detector example_cfg example_ext example_args oversize_only_bucket
       = Inl SystemExit"
proof -
  have "execute_abcd_detector example_cfg example_ext example_args no_videos_bucket
          = Inl SystemExit"
    by (simp add: execute_abcd_detector_def trim_defs run_defs no_videos_bucket_def
          example_args_def)
  moreover have "execute_abcd_detector example_cfg example_ext example_args oversize_only_bucket
          = Inl SystemExit"
    by (simp add: execute_abcd_detector_def trim_defs run_defs oversize_only_bucket_def
          example_defs)
  ultimately show ?thesis by simp
qed

lemma example_assessable:
  "filter (assessable example_cfg example_args) example_bucket
     = [\<lparr>blob_name = ''Acme/videos/small.mp4'', blob_size = 4000000\<rparr>]"
  by (simp add: example_bucket_def assessable_def skipped_name_def brand_videos_folder_def
        example_args_def video_names_def get_file_name_from_gcs_url_def example_cfg_def
        oversize_def Let_def)

lemma example_small_names:
  "video_names \<lparr>blob_name = ''Acme/videos/small.mp4'', blob_size = 4000000\<rparr>
     = (''small'', ''small.mp4'')"
  by (simp add: video_names_def get_file_name_from_gcs_url_def Let_def)

lemma example_small_assessment:
  "assess_video example_cfg example_ext example_args
     \<lparr>blob_name = ''Acme/videos/small.mp4'', blob_size = 4000000\<rparr> ''small'' ''small.mp4''
   = Inr example_assessment"
  by (simp add: assess_video_def annotations_for_def calculate_score_def detect_features_def
        empty_annotations_def empty_annotations_of_def Let_def example_defs
        example_assessment_def)

lemma map_Inr_single: "map Inr xs = [Inr y] \<longleftrightarrow> xs = [y]"
  by (cases xs) auto

theorem detector_outcome_witness:
  "distinct (map blob_name example_bucket)
   \<and> list_all (well_named (brand_name example_args))
       (list_blobs example_bucket (brand_videos_folder (brand_name example_args)))
   \<and> (\<exists>a trimmed evs.
         execute_abcd_detector example_cfg example_ext example_args example_bucket =
           Inr (a, trimmed, evs, print_abcd_assetssments example_cfg a (brand_name example_args))
         \<and> video_assessments a = [example_assessment])"
proof -
  have B: "example_bucket =
             (if use_annotations example_args
              then generate_video_annotations example_ext (brand_name example_args) example_bucket
              else example_bucket)"
    by (simp add: example_args_def)
  have d: "distinct (map blob_name example_bucket)" by (simp add: example_bucket_def)
  have w: "\<forall>v\<in>set (list_blobs example_bucket (brand_videos_folder (brand_name example_args))).
             well_named (brand_name example_args) v"
    unfolding example_listing by (rule example_well_named)
  from detector_outcome [OF B w d, of example_cfg] d w
  show ?thesis
    unfolding example_listing example_assessable
    by (simp add: example_small_names example_small_assessment list_all_iff map_Inr_single)
qed

text \<open>
  C10. \<^verbatim>\<open>get_file_name_from_gcs_url\<close> returns the pair of names exactly when its input
  splits on \<open>/\<close> into three parts (it holds two \<open>/\<close> characters). On every other input it
  returns the single empty string; unpacking that into two variables raises
  \<^verbatim>\<open>ValueError\<close> instead of binding two empty names, and so both callers, the body of
  the assessment loop and the body of the trimming loop, end with \<^verbatim>\<open>ValueError\<close> on
  every such object that they do not pass over.
\<close>

theorem get_file_name_from_gcs_url_shape:
  "(if length (split_on CHR ''/'' (blob_name video)) = 3
    then get_file_name_from_gcs_url (blob_name video) =
           Names (hd (split_on CHR ''.'' (split_on CHR ''/'' (blob_name video) ! 2)))
             (split_on CHR ''/'' (blob_name video) ! 2)
         \<and> count_list (blob_name video) CHR ''/'' = 2
    else get_file_name_from_gcs_url (blob_name video) = EmptyString
         \<and> unpack2 (get_file_name_from_gcs_url (blob_name video)) = Inl ValueError
         \<and> unpack2 (get_file_name_from_gcs_url (blob_name video)) \<noteq> Inr ([], [])
         \<and> count_list (blob_name video) CHR ''/'' \<noteq> 2
         \<and> assess_one cfg ext args bucket video st =
             (if skipped_name (brand_name args) (blob_name video) then Inr st
              else Inl ValueError)
         \<and> trim_one ext brand video s =
             (if skipped_name brand (blob_name video) then Inr s else Inl ValueError))"
  by (simp add: get_file_name_from_gcs_url_def Let_def length_split_on assess_one_skipped
        assess_one_malformed trim_one_skipped trim_one_malformed)

subsection \<open>The feature columns\<close>

lemma fold_insert_feature:
  "fold (\<lambda>f S'. insert (feature f) S') fs S = S \<union> feature ` set fs"
  by (induction fs arbitrary: S) auto

lemma features_set_eq:
  "features_set a = (\<Union>va\<in>set (video_assessments a). feature ` set (features va))"
proof -
  have F: "fold (\<lambda>va S. fold (\<lambda>f S'. insert (feature f) S') (features va) S) vas S
          = S \<union> (\<Union>va\<in>set vas. feature ` set (features va))" for vas S
    by (induction vas arbitrary: S) (auto simp: fold_insert_feature)
  show ?thesis unfolding features_set_def F by simp
qed

lemma finite_features_set: "finite (features_set a)"
  by (simp add: features_set_eq)

text \<open>
  C8. The list of feature names that gives the matrix its columns is the same for every
  reordering of the video assessments of a report: it is the sorted list, without
  repetition, of the feature names found in the assessments of the report.
\<close>

theorem feature_columns_permutation:
  assumes "mset (video_assessments a') = mset (video_assessments a)"
  shows "features_list a' = features_list a
         \<and> sorted (features_list a) \<and> distinct (features_list a)
         \<and> set (features_list a) = (\<Union>va\<in>set (video_assessments a). feature ` set (features va))"
proof -
  from assms have "set (video_assessments a') = set (video_assessments a)"
    by (rule mset_eq_setD)
  then have "features_set a' = features_set a"
    by (simp add: features_set_eq)
  then show ?thesis
    using finite_features_set [of a]
    by (simp add: features_list_def features_set_eq)
qed

lemma features_list_one_two:
  "features_list report_one_two = [''Dynamic Start'', ''Quick Pacing'', ''Supers'']"
  by (simp add: features_list_def features_set_def report_one_two_def video_one_def video_two_def
        insort_key.simps)

lemma features_list_two_one:
  "features_list report_two_one = [''Dynamic Start'', ''Quick Pacing'', ''Supers'']"
  by (simp add: features_list_def features_set_def report_two_one_def video_one_def video_two_def
        insort_key.simps)

theorem feature_columns_permutation_witness:
  "mset (video_assessments report_two_one) = mset (video_assessments report_one_two)
   \<and> video_assessments report_two_one \<noteq> video_assessments report_one_two
   \<and> features_list report_two_one = [''Dynamic Start'', ''Quick Pacing'', ''Supers'']
   \<and> features_list report_one_two = [''Dynamic Start'', ''Quick Pacing'', ''Supers'']"
proof -
  have m: "mset (video_assessments report_two_one) = mset (video_assessments report_one_two)"
    by (simp add: report_two_one_def report_one_two_def)
  have n: "video_assessments report_two_one \<noteq> video_assessments report_one_two"
    by (simp add: report_two_one_def report_one_two_def video_one_def video_two_def)
  from feature_columns_permutation [OF m] m n features_list_one_two
  show ?thesis by simp
qed

subsection \<open>The rows of the matrix\<close>

lemma find_append_cases:
  "find P (xs @ ys) = (case find P xs of None \<Rightarrow> find P ys | Some x \<Rightarrow> Some x)"
  by (induction xs) auto

lemma fold_upd_lookup:
  "fold (\<lambda>f m. m(key f \<mapsto> val f)) fs m0 n =
     (case find (\<lambda>f. key f = n) (rev fs) of None \<Rightarrow> m0 n | Some f \<Rightarrow> Some (val f))"
proof (induction fs arbitrary: m0)
  case Nil
  show ?case by simp
next
  case (Cons f fs)
  have "fold (\<lambda>f m. m(key f \<mapsto> val f)) (f # fs) m0 n
          = fold (\<lambda>f m. m(key f \<mapsto> val f)) fs (m0(key f \<mapsto> val f)) n"
    by (simp only: fold_simps)
  also have "\<dots> = (case find (\<lambda>f. key f = n) (rev fs) of
                       None \<Rightarrow> (m0(key f \<mapsto> val f)) n | Some f \<Rightarrow> Some (val f))"
    by (rule Cons.IH)
  also have "\<dots> = (case find (\<lambda>f. key f = n) (rev (f # fs)) of
                       None \<Rightarrow> m0 n | Some f \<Rightarrow> Some (val f))"
    by (simp add: find_append_cases split: option.splits)
  finally show ?case .
qed


text \<open>The cells of a feature come from the last result of that name in the video.\<close>

lemma detected_in_eq:
  "detected_in va n =
     (case find (\<lambda>f. feature f = n) (rev (features va)) of
        None \<Rightarrow> False | Some f \<Rightarrow> feature_detected f)"
  by (simp add: detected_in_def feature_detection_def fold_upd_lookup split: option.splits)

lemma explanation_in_eq:
  "explanation_in va n =
     clean_explanation
       (case find (\<lambda>f. feature f = n) (rev (features va)) of
          None \<Rightarrow> [] | Some f \<Rightarrow> llm_explanation (llm_details f))"
  by (simp add: explanation_in_def feature_explanation_def fold_upd_lookup split: option.splits)









subsection \<open>Trimming twice, and trimming at once\<close>

text \<open>A worker that runs alone does what one pass of the loop does.\<close>

lemma worker_alone:
  assumes "\<not> skipped_name brand (blob_name v)" and "count_list (blob_name v) CHR ''/'' = 2"
  shows "\<exists>s'. trim_one ext brand v (bucket, evs) = Inr s'
           \<and> race ext brand v [True, True, True, True] (At_check, w2, bucket, evs)
               = (Finished, w2, s')"
proof (cases "preview_path brand v \<in> blob_name ` set bucket")
  case True
  then obtain m where "get_blob bucket (preview_path brand v) = Some m"
    using get_blob_None_iff [of bucket "preview_path brand v"] by auto
  then show ?thesis
    using trim_one_hit [OF assms True, of ext evs] by simp
next
  case False
  then have "get_blob bucket (preview_path brand v) = None"
    by (simp add: get_blob_None_iff)
  then show ?thesis
    using trim_one_miss [OF assms False, of ext evs]
    by (simp add: upload_if_generation_match_0_def write_clip_def download_and_save_video_def)
qed

text \<open>
  However the steps of the two workers are interleaved, at most one upload of the clip
  succeeds: an upload is recorded only when the store did not hold the clip, and from then
  on the store holds it.
\<close>


lemma worker_step_upload_once:
  assumes "upload_once (preview_path brand v) s"
      and "worker_step ext brand v w s = (w', s')"
  shows "upload_once (preview_path brand v) s'"
proof -
  obtain bucket evs where s: "s = (bucket, evs)" by (cases s)
  show ?thesis
  proof (cases w)
    case At_upload
    show ?thesis
    proof (cases "get_blob bucket (preview_path brand v)")
      case None
      then have "preview_path brand v \<notin> blob_name ` set bucket"
        by (simp add: get_blob_None_iff)
      with assms(1) have "Uploaded (preview_path brand v) \<notin> set evs"
        by (auto simp: upload_once_def s)
      then have "count_list evs (Uploaded (preview_path brand v)) = 0"
        by (simp add: count_list_0_iff)
      with assms(2) None show ?thesis
        by (auto simp: upload_once_def s At_upload upload_if_generation_match_0_def)
    next
      case (Some m)
      with assms show ?thesis
        by (auto simp: s At_upload upload_if_generation_match_0_def)
    qed
  qed (use assms in \<open>auto simp: upload_once_def s write_clip_def download_and_save_video_def
         split: option.splits\<close>)
qed

lemma race_upload_once:
  assumes "upload_once (preview_path brand v) s"
      and "race ext brand v schedule (w1, w2, s) = (w1', w2', s')"
  shows "upload_once (preview_path brand v) s'"
  using assms
proof (induction schedule arbitrary: w1 w2 s)
  case Nil
  then show ?case by simp
next
  case (Cons first schedule)
  show ?case
  proof (cases first)
    case True
    obtain w s1 where st: "worker_step ext brand v w1 s = (w, s1)"
      by (cases "worker_step ext brand v w1 s")
    from Cons.prems(2) True st have "race ext brand v schedule (w, w2, s1) = (w1', w2', s')"
      by simp
    from Cons.IH [OF worker_step_upload_once [OF Cons.prems(1) st] this] show ?thesis .
  next
    case False
    obtain w s1 where st: "worker_step ext brand v w2 s = (w, s1)"
      by (cases "worker_step ext brand v w2 s")
    from Cons.prems(2) False st have "race ext brand v schedule (w1, w, s1) = (w1', w2', s')"
      by simp
    from Cons.IH [OF worker_step_upload_once [OF Cons.prems(1) st] this] show ?thesis .
  qed
qed

lemma race_at_most_one_upload:
  assumes "race ext brand v schedule (At_check, At_check, bucket, []) = (w1, w2, bucket', evs)"
  shows "count_list evs (Uploaded (preview_path brand v)) \<le> 1"
proof -
  have "upload_once (preview_path brand v) (bucket, [])"
    by (simp add: upload_once_def)
  from race_upload_once [OF this assms] show ?thesis
    by (simp add: upload_once_def)
qed

lemma big_video_facts:
  "\<not> skipped_name ''Acme'' (blob_name big_video)"
  "count_list (blob_name big_video) CHR ''/'' = 2"
  "video_names big_video = (''big'', ''big.mp4'')"
  "preview_path ''Acme'' big_video = ''Acme/videos/big_1st_5_secs.mp4''"
  "video_name_1st_5_secs ''big'' ''big.mp4'' = ''big_1st_5_secs.mp4''"
  by (simp_all add: big_video_def skipped_name_def brand_videos_folder_def preview_path_def
        video_names_def get_file_name_from_gcs_url_def video_name_1st_5_secs_def
        get_video_format_def Let_def)

lemma small_video_facts:
  "\<not> skipped_name ''Acme'' (blob_name small_video)"
  "count_list (blob_name small_video) CHR ''/'' = 2"
  "preview_path ''Acme'' small_video = ''Acme/videos/small_1st_5_secs.mp4''"
  by (simp_all add: small_video_def skipped_name_def brand_videos_folder_def preview_path_def
        video_names_def get_file_name_from_gcs_url_def video_name_1st_5_secs_def
        get_video_format_def Let_def)

lemma race_alternating:
  "race example_ext ''Acme'' big_video [True, False, True, False, True, False, True, False]
     (At_check, At_check, example_bucket, [])
   = (Finished, Raised PreconditionFailed, example_bucket @ [big_clip],
      [Downloaded ''Acme/videos/big.mp4'', Downloaded ''Acme/videos/big.mp4'',
       Trimmed ''big.mp4'' ''big_1st_5_secs.mp4'', Trimmed ''big.mp4'' ''big_1st_5_secs.mp4'',
       Uploaded ''Acme/videos/big_1st_5_secs.mp4''])"
  by (simp add: big_video_facts get_blob_def example_bucket_def upload_if_generation_match_0_def
        write_clip_def download_and_save_video_def big_clip_def example_ext_def)
     (simp add: big_video_def)

lemma example_trim:
  "trim_videos example_ext ''Acme'' example_bucket =
     Inr (example_bucket @ [big_clip],
          [Downloaded ''Acme/videos/big.mp4'', Trimmed ''big.mp4'' ''big_1st_5_secs.mp4'',
           Uploaded ''Acme/videos/big_1st_5_secs.mp4'',
           Already_trimmed ''Acme/videos/small.mp4''])"
  by (simp add: trim_defs example_bucket_def example_ext_def big_clip_def)

lemma example_trim_again:
  "map (\<lambda>v. Already_trimmed (blob_name v))
     (filter (\<lambda>v. \<not> skipped_name ''Acme'' (blob_name v))
        (list_blobs (example_bucket @ [big_clip]) (brand_videos_folder ''Acme'')))
   = [Already_trimmed ''Acme/videos/big.mp4'', Already_trimmed ''Acme/videos/small.mp4'']"
  by (simp add: list_blobs_def brand_videos_folder_def skipped_name_def example_bucket_def
        big_clip_def)

text \<open>
  C3 as it is written fails under a race. Two workers take turns on
  \<^verbatim>\<open>big.mp4\<close>, whose clip is missing: both see that it is missing, both download and
  both trim, so the transform runs twice; the first upload creates the clip and the second
  raises, which ends the second worker's pass.
\<close>

theorem race_counterexample:
  "count_list
     (snd (snd (snd (race example_ext ''Acme'' big_video
                       [True, False, True, False, True, False, True, False]
                       (At_check, At_check, example_bucket, [])))))
     (Trimmed ''big.mp4'' ''big_1st_5_secs.mp4'') = 2
   \<and> fst (snd (race example_ext ''Acme'' big_video
                  [True, False, True, False, True, False, True, False]
                  (At_check, At_check, example_bucket, [])))
       = Raised PreconditionFailed"
  unfolding race_alternating by simp

text \<open>
  C3 (as the code has it). For a candidate whose clip is in the store, one pass of the loop
  of \<^verbatim>\<open>trim_videos\<close> leaves the store as it is and performs no download, trim or upload.
  A second \<^verbatim>\<open>trim_videos\<close> on the store that a first one left returns that store
  unchanged and does nothing but report the candidates as already trimmed. When two workers
  race on the same candidate, however their steps are interleaved, at most one upload of
  the clip succeeds.
\<close>

theorem trim_idempotent:
  "(\<not> skipped_name brand (blob_name v) \<and> count_list (blob_name v) CHR ''/'' = 2
      \<and> preview_path brand v \<in> blob_name ` set bucket
    \<longrightarrow> trim_one ext brand v (bucket, evs) = Inr (bucket, evs @ [Already_trimmed (blob_name v)]))
   \<and> (trim_videos ext brand bucket = Inr (bucket', evs')
    \<longrightarrow> trim_videos ext brand bucket' =
          Inr (bucket', map (\<lambda>v. Already_trimmed (blob_name v))
                          (filter (\<lambda>v. \<not> skipped_name brand (blob_name v))
                             (list_blobs bucket' (brand_videos_folder brand)))))
   \<and> (race ext brand w schedule (At_check, At_check, bucket, []) = (w1, w2, bucket'', evs'')
    \<longrightarrow> count_list evs'' (Uploaded (preview_path brand w)) \<le> 1)"
  using trim_one_hit [of brand v bucket ext evs] trim_videos_again [of ext brand bucket bucket' evs']
    race_at_most_one_upload [of ext brand w schedule bucket w1 w2 bucket'' evs'']
  by blast

theorem trim_idempotent_witness:
  "\<not> skipped_name ''Acme'' (blob_name small_video)
   \<and> count_list (blob_name small_video) CHR ''/'' = 2
   \<and> preview_path ''Acme'' small_video \<in> blob_name ` set example_bucket
   \<and> trim_one example_ext ''Acme'' small_video (example_bucket, [])
       = Inr (example_bucket, [Already_trimmed ''Acme/videos/small.mp4''])
   \<and> trim_videos example_ext ''Acme'' example_bucket =
       Inr (example_bucket @ [big_clip],
            [Downloaded ''Acme/videos/big.mp4'', Trimmed ''big.mp4'' ''big_1st_5_secs.mp4'',
             Uploaded ''Acme/videos/big_1st_5_secs.mp4'',
             Already_trimmed ''Acme/videos/small.mp4''])
   \<and> trim_videos example_ext ''Acme'' (example_bucket @ [big_clip]) =
       Inr (example_bucket @ [big_clip],
            [Already_trimmed ''Acme/videos/big.mp4'', Already_trimmed ''Acme/videos/small.mp4''])
   \<and> race example_ext ''Acme'' big_video [True, False, True, False, True, False, True, False]
         (At_check, At_check, example_bucket, [])
       = (Finished, Raised PreconditionFailed, example_bucket @ [big_clip],
          [Downloaded ''Acme/videos/big.mp4'', Downloaded ''Acme/videos/big.mp4'',
           Trimmed ''big.mp4'' ''big_1st_5_secs.mp4'', Trimmed ''big.mp4'' ''big_1st_5_secs.mp4'',
           Uploaded ''Acme/videos/big_1st_5_secs.mp4''])
   \<and> count_list
         [Downloaded ''Acme/videos/big.mp4'', Downloaded ''Acme/videos/big.mp4'',
          Trimmed ''big.mp4'' ''big_1st_5_secs.mp4'', Trimmed ''big.mp4'' ''big_1st_5_secs.mp4'',
          Uploaded ''Acme/videos/big_1st_5_secs.mp4'']
         (Uploaded (preview_path ''Acme'' big_video)) \<le> 1"
proof -
  have p: "preview_path ''Acme'' small_video \<in> blob_name ` set example_bucket"
    by (simp add: small_video_facts example_bucket_def)
  note t = trim_idempotent [where brand = "''Acme''" and v = small_video
      and bucket = example_bucket and ext = example_ext and evs = "[]"
      and bucket' = "example_bucket @ [big_clip]"
      and evs' = "[Downloaded ''Acme/videos/big.mp4'', Trimmed ''big.mp4'' ''big_1st_5_secs.mp4'',
           Uploaded ''Acme/videos/big_1st_5_secs.mp4'',
           Already_trimmed ''Acme/videos/small.mp4'']"
      and w = big_video and schedule = "[True, False, True, False, True, False, True, False]"
      and ?w1.0 = Finished and ?w2.0 = "Raised PreconditionFailed"
      and bucket'' = "example_bucket @ [big_clip]"
      and evs'' = "[Downloaded ''Acme/videos/big.mp4'', Downloaded ''Acme/videos/big.mp4'',
           Trimmed ''big.mp4'' ''big_1st_5_secs.mp4'', Trimmed ''big.mp4'' ''big_1st_5_secs.mp4'',
           Uploaded ''Acme/videos/big_1st_5_secs.mp4'']"]
  from t p small_video_facts(1,2) example_trim race_alternating
  show ?thesis
    by (simp add: example_trim_again small_video_def)
qed

end
